theory Spec2Isabelle
  imports Main "HOL-Library.Word"
begin

section \<open>Strings and slug sanitization\<close>

text \<open>
  Strings of the program are modelled as \<^typ>\<open>string\<close>, one \<^typ>\<open>char\<close> per code
  unit. On code units below 256 the only characters that \<open>toLowerCase\<close> moves into or
  inside the class \<open>[a-z0-9-]\<close> are the letters \<open>A\<close> to \<open>Z\<close>; every other unit
  outside that class stays outside it and is replaced by a hyphen in the next step of
  each chain, so \<open>toLowerCase\<close> is modelled on \<open>A\<close> to \<open>Z\<close> and as the identity
  elsewhere.
\<close>

definition lower_char :: "char \<Rightarrow> char" where
  "lower_char c =
     (let n = (of_char c :: nat)
      in if 65 \<le> n \<and> n \<le> 90 then char_of (n + 32) else c)"

definition toLowerCase :: "string \<Rightarrow> string" where
  "toLowerCase s = map lower_char s"

text \<open>The character class \<open>[a-z0-9-]\<close>.\<close>

definition slug_char :: "char \<Rightarrow> bool" where
  "slug_char c =
     (let n = (of_char c :: nat)
      in (97 \<le> n \<and> n \<le> 122) \<or> (48 \<le> n \<and> n \<le> 57) \<or> n = 45)"

text \<open>\<open>.replace(/[^a-z0-9-]/g, "-")\<close>\<close>

definition replace_invalid :: "string \<Rightarrow> string" where
  "replace_invalid s = map (\<lambda>c. if slug_char c then c else CHR ''-'') s"

text \<open>\<open>.replace(/-+/g, "-")\<close>: every maximal run of hyphens becomes one hyphen.\<close>

fun collapse_hyphens :: "string \<Rightarrow> string" where
  "collapse_hyphens [] = []"
| "collapse_hyphens [c] = [c]"
| "collapse_hyphens (c # d # cs) =
     (if c = CHR ''-'' \<and> d = CHR ''-'' then collapse_hyphens (d # cs)
      else c # collapse_hyphens (d # cs))"

text \<open>
  \<open>.replace(/^-|-$/g, "")\<close>: scanning from the left, a hyphen at position 0 is
  removed; after it, a hyphen that is the last character is removed. So one hyphen goes
  from the front, then one from the end of what is left.
\<close>

definition strip_leading :: "string \<Rightarrow> string" where
  "strip_leading s = (case s of [] \<Rightarrow> [] | c # cs \<Rightarrow> if c = CHR ''-'' then cs else s)"

definition strip_trailing :: "string \<Rightarrow> string" where
  "strip_trailing s = (if s \<noteq> [] \<and> last s = CHR ''-'' then butlast s else s)"

definition strip_hyphens :: "string \<Rightarrow> string" where
  "strip_hyphens s = strip_trailing (strip_leading s)"

text \<open>\<open>.slice(0, 100)\<close>\<close>

definition slice100 :: "string \<Rightarrow> string" where
  "slice100 s = take 100 s"

text \<open>
  The four sanitizing sites of \<open>index.ts\<close>.

  \<^item> \<open>sanitized\<close> of \<open>generate_image_url\<close>, \<open>generate_image\<close> and \<open>create_image\<close>
    (lines 85-90, 147-152, 309-314): the description.
  \<^item> \<open>sanitizedEdit\<close> of \<open>generate_image_url\<close> (lines 94-97): the edit instruction;
    the chain stops after the collapse of hyphens.
  \<^item> \<open>sanitizedPrompt\<close> of \<open>edit_image\<close> (lines 499-503): the upload prompt.
  \<^item> \<open>sanitizedEdit\<close> of \<open>edit_image\<close> (lines 645-649): the edit instruction, before
    the dimensions are appended.
\<close>

definition sanitized :: "string \<Rightarrow> string" where
  "sanitized description =
     slice100 (strip_hyphens (collapse_hyphens (replace_invalid (toLowerCase description))))"

definition sanitizedEdit_url :: "string \<Rightarrow> string" where
  "sanitizedEdit_url edit = collapse_hyphens (replace_invalid (toLowerCase edit))"

definition sanitizedPrompt :: "string \<Rightarrow> string" where
  "sanitizedPrompt prompt =
     strip_hyphens (collapse_hyphens (replace_invalid (toLowerCase prompt)))"

definition sanitizedEdit :: "string \<Rightarrow> string" where
  "sanitizedEdit editInstruction =
     strip_hyphens (collapse_hyphens (replace_invalid (toLowerCase editInstruction)))"

text \<open>What the specification asks of a slug.\<close>

fun no_double_hyphen :: "string \<Rightarrow> bool" where
  "no_double_hyphen [] = True"
| "no_double_hyphen [c] = True"
| "no_double_hyphen (c # d # cs) =
     ((c \<noteq> CHR ''-'' \<or> d \<noteq> CHR ''-'') \<and> no_double_hyphen (d # cs))"

definition no_edge_hyphen :: "string \<Rightarrow> bool" where
  "no_edge_hyphen s = (s = [] \<or> (hd s \<noteq> CHR ''-'' \<and> last s \<noteq> CHR ''-''))"

definition is_slug :: "string \<Rightarrow> bool" where
  "is_slug s = (list_all slug_char s \<and> no_double_hyphen s \<and> no_edge_hyphen s)"


section \<open>Numbers in strings\<close>

text \<open>
  A template literal prints an integer in decimal without leading zeros; \<open>parseInt(s, 10)\<close>
  is only ever applied to a capture of \<open>\d+\<close>, a non-empty string of decimal digits.
  Numbers are unbounded naturals here; the program's are doubles, exact up to \<open>2^53\<close>.
\<close>

definition digit_char :: "nat \<Rightarrow> char" where
  "digit_char n = char_of (48 + n)"

function dec :: "nat \<Rightarrow> string" where
  "dec n = (if n < 10 then [digit_char n] else dec (n div 10) @ [digit_char (n mod 10)])"
  by pat_completeness auto
termination
  by (relation "measure id") auto

declare dec.simps [simp del]

definition is_digit :: "char \<Rightarrow> bool" where
  "is_digit c = (let n = (of_char c :: nat) in 48 \<le> n \<and> n \<le> 57)"

definition digit_val :: "char \<Rightarrow> nat" where
  "digit_val c = of_char c - 48"

definition parseInt :: "string \<Rightarrow> nat" where
  "parseInt s = foldl (\<lambda>acc c. acc * 10 + digit_val c) 0 s"

section \<open>String helpers of the language\<close>

definition startsWith :: "string \<Rightarrow> string \<Rightarrow> bool" where
  "startsWith s p = (take (length p) s = p)"

definition endsWith :: "string \<Rightarrow> string \<Rightarrow> bool" where
  "endsWith s p = (length p \<le> length s \<and> drop (length s - length p) s = p)"

text \<open>\<open>s.split(sep)\<close> for a one-character separator; never the empty list.\<close>

fun split :: "char \<Rightarrow> string \<Rightarrow> string list" where
  "split sep [] = [[]]"
| "split sep (c # cs) =
     (if c = sep then [] # split sep cs
      else (case split sep cs of [] \<Rightarrow> [[c]] | x # xs \<Rightarrow> (c # x) # xs))"

text \<open>\<open>s.replace(/-/g, " ")\<close>, used for the \<open>alt\<close> text.\<close>

definition hyphens_to_spaces :: "string \<Rightarrow> string" where
  "hyphens_to_spaces s = map (\<lambda>c. if c = CHR ''-'' then CHR '' '' else c) s"

text \<open>\<open>s.replace(".", "")\<close> with a string pattern: the first occurrence only.\<close>

fun remove_first_dot :: "string \<Rightarrow> string" where
  "remove_first_dot [] = []"
| "remove_first_dot (c # cs) = (if c = CHR ''.'' then cs else c # remove_first_dot cs)"

text \<open>\<open>s.replace(/^\//, "")\<close>\<close>

definition strip_leading_slash :: "string \<Rightarrow> string" where
  "strip_leading_slash s = (case s of [] \<Rightarrow> [] | c # cs \<Rightarrow> if c = CHR ''/'' then cs else s)"

section \<open>Values, errors and the platform\<close>

type_synonym bytes = "8 word list"

text \<open>
  A parsed JSON value. Of a number the program only observes whether it is zero, and its
  printed form; \<open>JObj\<close> lists the properties of the parsed object, the first binding
  of a key being the one that counts.
\<close>

datatype json =
    JNull
  | JBool bool
  | JNum int
  | JStr string
  | JArr "json list"
  | JObj "(string \<times> json) list"

text \<open>
  A thrown value. \<open>Error\<close> is \<open>new Error(message)\<close> raised by the program itself;
  \<open>TypeError\<close> is raised by the language (a property read on \<open>null\<close> or
  \<open>undefined\<close>, a call of something that is no function, \<open>Buffer.from(undefined)\<close>);
  \<open>Rejected\<close> is the rejection of a promise of the platform (network, file system,
  body parsing), with its message.
\<close>

datatype js_error = Error string | TypeError string | Rejected string


type_synonym 'a result = "js_error + 'a"

text \<open>A JavaScript value read out of JSON: \<open>None\<close> is \<open>undefined\<close>.\<close>

type_synonym js_value = "json option"

fun truthy :: "js_value \<Rightarrow> bool" where
  "truthy None = False"
| "truthy (Some JNull) = False"
| "truthy (Some (JBool b)) = b"
| "truthy (Some (JNum n)) = (n \<noteq> 0)"
| "truthy (Some (JStr s)) = (s \<noteq> [])"
| "truthy (Some (JArr xs)) = True"
| "truthy (Some (JObj kvs)) = True"

text \<open>Truthiness of an optional string argument: absent and empty are both falsy.\<close>

fun given :: "string option \<Rightarrow> bool" where
  "given None = False"
| "given (Some s) = (s \<noteq> [])"

text \<open>
  \<open>v.key\<close> for the keys the program reads (\<open>mediaAsset\<close>, \<open>data\<close>, \<open>projects\<close>,
  \<open>project\<close>, \<open>success\<close>, \<open>message\<close>, \<open>content\<close>, \<open>prompt\<close>), none of them a
  built-in property of strings, arrays, numbers or booleans.
\<close>

fun get_prop :: "js_value \<Rightarrow> string \<Rightarrow> js_value result" where
  "get_prop None key = Inl (TypeError ''Cannot read properties of undefined'')"
| "get_prop (Some JNull) key = Inl (TypeError ''Cannot read properties of null'')"
| "get_prop (Some (JObj kvs)) key = Inr (map_of kvs key)"
| "get_prop (Some v) key = Inr None"

text \<open>\<open>v?.key\<close>\<close>

fun get_prop_opt :: "js_value \<Rightarrow> string \<Rightarrow> js_value" where
  "get_prop_opt None key = None"
| "get_prop_opt (Some JNull) key = None"
| "get_prop_opt (Some (JObj kvs)) key = map_of kvs key"
| "get_prop_opt (Some v) key = None"

text \<open>An HTTP response as the program reads it; each body reader is a promise.\<close>

record response =
  res_status :: nat
  res_json :: "json result"
  res_text :: "string result"
  res_arrayBuffer :: "bytes result"

definition ok :: "response \<Rightarrow> bool" where
  "ok res = (200 \<le> res_status res \<and> res_status res \<le> 299)"

record url =
  hostname :: string
  pathname :: string
  search :: string

text \<open>The multipart form of an upload.\<close>

record upload_form =
  form_file :: bytes
  form_filename :: string
  form_contentType :: string
  form_project :: string
  form_prompt :: string

text \<open>
  Everything outside the repository: the library functions the program calls and the
  answers of the network and the file system. \<open>poll_fetch\<close> and \<open>asset_fetch\<close> take
  the number of the attempt (from 0) during which the request is made.
  \<open>JSON_stringify\<close> is \<open>JSON.stringify(v)\<close> and \<open>JSON_stringify_2\<close> is
  \<open>JSON.stringify(v, null, 2)\<close>; \<open>js_String\<close> is the conversion of a value inside a
  template literal and \<open>js_gt_zero\<close> the comparison \<open>v > 0\<close>, both only consulted for
  values whose conversion is not written out below. Request headers are not modelled.
\<close>

record env =
  INLINER_API_URL :: "string option"
  base64_decode :: "string \<Rightarrow> bytes"
  JSON_stringify :: "json \<Rightarrow> string"
  JSON_stringify_2 :: "json \<Rightarrow> string"
  js_String :: "js_value \<Rightarrow> string"
  js_gt_zero :: "js_value \<Rightarrow> bool"
  new_URL :: "string \<Rightarrow> url option"
  path_extname :: "string \<Rightarrow> string"
  path_basename :: "string \<Rightarrow> string \<Rightarrow> string"
  path_dirname :: "string \<Rightarrow> string"
  fs_readFile :: "string \<Rightarrow> bytes result"
  fs_mkdir :: "string \<Rightarrow> unit result"
  fs_writeFile :: "string \<Rightarrow> bytes \<Rightarrow> unit result"
  sharp_metadata :: "bytes \<Rightarrow> (nat option \<times> nat option) result"
  api_fetch :: "string \<Rightarrow> response result"
  poll_fetch :: "nat \<Rightarrow> string \<Rightarrow> response result"
  asset_fetch :: "nat \<Rightarrow> string \<Rightarrow> response result"
  upload_fetch :: "string \<Rightarrow> upload_form \<Rightarrow> response result"

definition IMG_BASE :: string where
  "IMG_BASE = ''https://img.inliner.ai''"

definition API_BASE :: "env \<Rightarrow> string" where
  "API_BASE e =
     (case INLINER_API_URL e of
        None \<Rightarrow> ''https://api.inliner.ai''
      | Some u \<Rightarrow> if u = [] then ''https://api.inliner.ai'' else u)"

text \<open>A value in a template literal: a string prints as itself.\<close>

definition render :: "env \<Rightarrow> js_value \<Rightarrow> string" where
  "render e v = (case v of Some (JStr s) \<Rightarrow> s | _ \<Rightarrow> js_String e v)"

text \<open>What the program does that can be seen from outside, in order.\<close>

datatype event =
    ApiGet string
  | StatusGet string
  | AssetGet string
  | UploadPost string
  | Wait nat


section \<open>The polling loop\<close>

text \<open>
  The loop is written three times in \<open>index.ts\<close>, with the same text: in
  \<open>generate_image\<close> (lines 159-215), \<open>create_image\<close> (lines 321-377) and
  \<open>edit_image\<close> (lines 665-721).
\<close>

definition maxAttempts :: nat where
  "maxAttempts = 60"

text \<open>\<open>pollData.mediaAsset && pollData.mediaAsset.data\<close>\<close>

definition media_data :: "json \<Rightarrow> js_value result" where
  "media_data pollData =
     (case get_prop (Some pollData) ''mediaAsset'' of
        Inl err \<Rightarrow> Inl err
      | Inr mediaAsset \<Rightarrow>
          if truthy mediaAsset then get_prop mediaAsset ''data'' else Inr mediaAsset)"

text \<open>
  The body of \<open>try\<close> in one iteration, in three parts. \<open>Inl\<close> is a throw, which
  leaves \<open>status\<close> as it was; \<open>Inr (Some buf, _)\<close> is a \<open>break\<close> with
  \<open>imageBuffer = buf\<close>; \<open>Inr (None, st)\<close> is the end of the block with
  \<open>status = st\<close>. The second component lists the requests made.

  First the branch taken when \<open>mediaAsset.data\<close> is truthy: a \<open>data:\<close> URL is cut at
  its commas and the second piece decoded; any other string is fetched and the body of
  the answer taken as it comes.
\<close>

definition take_payload :: "env \<Rightarrow> nat \<Rightarrow> string \<Rightarrow> js_value \<Rightarrow> (bytes option \<times> string) result \<times> event list" where
  "take_payload e attempt status d =
     (case d of
        Some (JStr dataUrl) \<Rightarrow>
          if startsWith dataUrl ''data:'' then
            (case split CHR '','' dataUrl of
               x # base64Data # xs \<Rightarrow> (Inr (Some (base64_decode e base64Data), status), [])
             | _ \<Rightarrow> (Inl (TypeError ''The first argument must be of type string''), []))
          else
            (case asset_fetch e attempt dataUrl of
               Inl err \<Rightarrow> (Inl err, [AssetGet dataUrl])
             | Inr imgRes \<Rightarrow>
                 (case res_arrayBuffer imgRes of
                    Inl err \<Rightarrow> (Inl err, [AssetGet dataUrl])
                  | Inr arrayBuffer \<Rightarrow> (Inr (Some arrayBuffer, status), [AssetGet dataUrl])))
      | _ \<Rightarrow> (Inl (TypeError ''dataUrl.startsWith is not a function''), []))"

text \<open>What is done with the answer of the status request.\<close>

definition poll_body :: "env \<Rightarrow> nat \<Rightarrow> string \<Rightarrow> response \<Rightarrow> (bytes option \<times> string) result \<times> event list" where
  "poll_body e attempt status pollRes =
     (if ok pollRes then
        (case res_json pollRes of
           Inl err \<Rightarrow> (Inl err, [])
         | Inr pollData \<Rightarrow>
             (case media_data pollData of
                Inl err \<Rightarrow> (Inl err, [])
              | Inr d \<Rightarrow>
                  if truthy d then take_payload e attempt status d
                  else if res_status pollRes = 202 then (Inr (None, ''PENDING''), [])
                  else if res_status pollRes \<ge> 400 then
                    (Inl (Error (''API error '' @ dec (res_status pollRes) @ '': ''
                                 @ JSON_stringify e pollData)), [])
                  else (Inr (None, status), [])))
      else if res_status pollRes = 202 then (Inr (None, ''PENDING''), [])
      else
        (case res_text pollRes of
           Inl err \<Rightarrow> (Inl err, [])
         | Inr body \<Rightarrow>
             (Inl (Error (''API error '' @ dec (res_status pollRes) @ '': '' @ body)), [])))"

text \<open>The status request and what follows it.\<close>

definition poll_try :: "env \<Rightarrow> string \<Rightarrow> nat \<Rightarrow> string \<Rightarrow> (bytes option \<times> string) result \<times> event list" where
  "poll_try e pollUrl attempt status =
     (case poll_fetch e attempt pollUrl of
        Inl err \<Rightarrow> (Inl err, [StatusGet pollUrl])
      | Inr pollRes \<Rightarrow>
          (case poll_body e attempt status pollRes of
             (r, reqs) \<Rightarrow> (r, StatusGet pollUrl # reqs)))"

text \<open>
  The \<open>while\<close> loop with its \<open>catch\<close>: a caught error is thrown again when
  \<open>status\<close> is \<open>"FAILED"\<close> and dropped otherwise; then \<open>attempt++\<close> and a wait of
  3000 ms. The result is the error that left the loop, or \<open>imageBuffer\<close> after it
  (\<open>None\<close> for \<open>null\<close>), with everything done so far.
\<close>

function poll_loop :: "env \<Rightarrow> string \<Rightarrow> nat \<Rightarrow> string \<Rightarrow> event list \<Rightarrow> bytes option result \<times> event list" where
  "poll_loop e pollUrl attempt status log =
     (if attempt < maxAttempts then
        (case poll_try e pollUrl attempt status of
           (Inl err, reqs) \<Rightarrow>
             if status = ''FAILED'' then (Inl err, log @ reqs)
             else poll_loop e pollUrl (attempt + 1) status (log @ reqs @ [Wait 3000])
         | (Inr (Some buf, st), reqs) \<Rightarrow> (Inr (Some buf), log @ reqs)
         | (Inr (None, st), reqs) \<Rightarrow>
             poll_loop e pollUrl (attempt + 1) st (log @ reqs @ [Wait 3000]))
      else (Inr None, log))"
  by pat_completeness auto
termination
  by (relation "measure (\<lambda>(e, pollUrl, attempt, status, log). maxAttempts - attempt)") auto

declare poll_loop.simps [simp del]

text \<open>\<open>let attempt = 0; let imageBuffer = null; let status = "PENDING"; while ...\<close>\<close>

definition poll_until_ready :: "env \<Rightarrow> string \<Rightarrow> bytes option result \<times> event list" where
  "poll_until_ready e pollUrl = poll_loop e pollUrl 0 ''PENDING'' []"

definition is_status_get :: "event \<Rightarrow> bool" where
  "is_status_get ev = (case ev of StatusGet u \<Rightarrow> True | _ \<Rightarrow> False)"

definition is_wait :: "event \<Rightarrow> bool" where
  "is_wait ev = (case ev of Wait ms \<Rightarrow> True | _ \<Rightarrow> False)"

text \<open>The number of poll attempts in a run, and the time spent waiting between them.\<close>

definition attempts :: "event list \<Rightarrow> nat" where
  "attempts log = length (filter is_status_get log)"

definition waited_ms :: "event list \<Rightarrow> nat" where
  "waited_ms log = sum_list (map (\<lambda>ev. case ev of Wait ms \<Rightarrow> ms | _ \<Rightarrow> 0) log)"


section \<open>Paths, markup and tool results\<close>

datatype image_format = Png | Jpg

fun format_str :: "image_format \<Rightarrow> string" where
  "format_str Png = ''png''"
| "format_str Jpg = ''jpg''"

definition dq :: string where
  "dq = [CHR 0x22]"

text \<open>
  \<open><img src="${url}" alt="${alt}" width="${width}" height="${height}" loading="lazy" />\<close>
\<close>

definition img_html :: "string \<Rightarrow> string \<Rightarrow> nat \<Rightarrow> nat \<Rightarrow> string" where
  "img_html url alt width height =
     ''<img src='' @ dq @ url @ dq @ '' alt='' @ dq @ alt @ dq
     @ '' width='' @ dq @ dec width @ dq @ '' height='' @ dq @ dec height @ dq
     @ '' loading='' @ dq @ ''lazy'' @ dq @ '' />''"

text \<open>
  \<open>pathPart\<close> of \<open>generate_image\<close> (line 155):
  \<open>${project}/${sanitized}_${width}x${height}.${format}\<close>.
\<close>

definition buildImagePath :: "string \<Rightarrow> string \<Rightarrow> nat \<Rightarrow> nat \<Rightarrow> image_format \<Rightarrow> string" where
  "buildImagePath project description width height format =
     project @ ''/'' @ sanitized description @ ''_'' @ dec width @ ''x'' @ dec height
     @ ''.'' @ format_str format"

text \<open>
  What a tool hands back: the text of its one content item, and \<open>isError\<close> (absent in
  the program is \<open>False\<close> here).
\<close>

record tool_result =
  content_text :: string
  isError :: bool

fun json_of_path :: "string option \<Rightarrow> json" where
  "json_of_path None = JNull"
| "json_of_path (Some p) = (if p = [] then JNull else JStr p)"

text \<open>\<open>generate_image_url\<close> (lines 84-112).\<close>

definition generate_image_url :: "env \<Rightarrow> string \<Rightarrow> string \<Rightarrow> nat \<Rightarrow> nat \<Rightarrow> image_format \<Rightarrow> string option \<Rightarrow> tool_result" where
  "generate_image_url e project description width height format edit =
     (let url0 = IMG_BASE @ ''/'' @ project @ ''/'' @ sanitized description @ ''_''
                 @ dec width @ ''x'' @ dec height;
          url1 = (case edit of
                    None \<Rightarrow> url0
                  | Some ed \<Rightarrow> if ed = [] then url0 else url0 @ ''/'' @ sanitizedEdit_url ed);
          url = url1 @ ''.'' @ format_str format;
          html = img_html url (hyphens_to_spaces description) width height
      in \<lparr>content_text = JSON_stringify_2 e (JObj [(''url'', JStr url), (''html'', JStr html)]),
          isError = False\<rparr>)"

text \<open>The saving of the image when \<open>outputPath\<close> is given (lines 222-232).\<close>

definition save_output :: "env \<Rightarrow> string option \<Rightarrow> bytes \<Rightarrow> unit result" where
  "save_output e outputPath imageBuffer =
     (case outputPath of
        None \<Rightarrow> Inr ()
      | Some p \<Rightarrow>
          if p = [] then Inr ()
          else (case fs_mkdir e (path_dirname e p) of
                  Inl err \<Rightarrow> Inl err
                | Inr u \<Rightarrow> fs_writeFile e p imageBuffer))"

section \<open>The materializing tools\<close>

text \<open>
  Widths, heights and limits are naturals, as in the data model of the specification;
  the range checks of the argument schemas happen before a tool runs and are not part of
  the model.

  \<open>generate_image\<close> (lines 146-254).
\<close>

definition generate_image :: "env \<Rightarrow> string \<Rightarrow> string \<Rightarrow> nat \<Rightarrow> nat \<Rightarrow> image_format \<Rightarrow> string option \<Rightarrow> tool_result result \<times> event list" where
  "generate_image e project description width height format outputPath =
     (let url = IMG_BASE @ ''/'' @ buildImagePath project description width height format;
          pathPart = buildImagePath project description width height format;
          pollUrl = API_BASE e @ ''/content/request-json/'' @ pathPart
      in case poll_until_ready e pollUrl of
           (Inl err, log) \<Rightarrow> (Inl err, log)
         | (Inr None, log) \<Rightarrow>
             (Inl (Error (''Image generation timeout after '' @ dec (maxAttempts * 3)
                          @ '' seconds. URL: '' @ url)), log)
         | (Inr (Some imageBuffer), log) \<Rightarrow>
             (case save_output e outputPath imageBuffer of
                Inl err \<Rightarrow> (Inl err, log)
              | Inr u \<Rightarrow>
                  (Inr \<lparr>content_text = JSON_stringify_2 e (JObj
                          [(''url'', JStr url),
                           (''html'', JStr (img_html url (hyphens_to_spaces description) width height)),
                           (''saved'', JBool (given outputPath)),
                           (''outputPath'', json_of_path outputPath),
                           (''size'', JNum (int (length imageBuffer)))]),
                        isError = False\<rparr>, log)))"

text \<open>\<open>apiFetch\<close> (lines 23-38), with the request it makes.\<close>

definition apiFetch :: "env \<Rightarrow> string \<Rightarrow> json result \<times> event list" where
  "apiFetch e path =
     (let url = API_BASE e @ ''/'' @ path
      in (case api_fetch e url of
            Inl err \<Rightarrow> Inl err
          | Inr res \<Rightarrow>
              if \<not> ok res then
                (case res_text res of
                   Inl err \<Rightarrow> Inl err
                 | Inr body \<Rightarrow> Inl (Error (''API error '' @ dec (res_status res) @ '': '' @ body)))
              else res_json res,
          [ApiGet url]))"

text \<open>\<open>v.length\<close> and \<open>v[0]\<close> of a truthy value, and \<open>v > 0\<close>.\<close>

fun js_length :: "js_value \<Rightarrow> js_value" where
  "js_length (Some (JArr xs)) = Some (JNum (int (length xs)))"
| "js_length (Some (JStr s)) = Some (JNum (int (length s)))"
| "js_length (Some (JObj kvs)) = map_of kvs ''length''"
| "js_length v = None"

fun js_index0 :: "js_value \<Rightarrow> js_value" where
  "js_index0 (Some (JArr xs)) = (case xs of [] \<Rightarrow> None | x # rest \<Rightarrow> Some x)"
| "js_index0 (Some (JStr s)) = (case s of [] \<Rightarrow> None | c # rest \<Rightarrow> Some (JStr [c]))"
| "js_index0 (Some (JObj kvs)) = map_of kvs ''0''"
| "js_index0 v = None"

fun gt_zero :: "env \<Rightarrow> js_value \<Rightarrow> bool" where
  "gt_zero e None = False"
| "gt_zero e (Some JNull) = False"
| "gt_zero e (Some (JBool b)) = b"
| "gt_zero e (Some (JNum n)) = (0 < n)"
| "gt_zero e v = js_gt_zero e v"

text \<open>The choice of a project when none is given (lines 294-306).\<close>

definition resolve_project :: "env \<Rightarrow> string option \<Rightarrow> js_value \<times> event list" where
  "resolve_project e project =
     (if given project then (map_option JStr project, [])
      else (case apiFetch e ''account/projects'' of
              (Inl err, log) \<Rightarrow> (Some (JStr ''default''), log)
            | (Inr projectsData, log) \<Rightarrow>
                (let projects = get_prop_opt (Some projectsData) ''projects''
                 in if truthy projects \<and> gt_zero e (js_length projects) then
                      (case get_prop (js_index0 projects) ''project'' of
                         Inl err \<Rightarrow> (Some (JStr ''default''), log)
                       | Inr p \<Rightarrow> (p, log))
                    else (Some (JStr ''default''), log))))"

fun json_of_value :: "js_value \<Rightarrow> (string \<times> json) list" where
  "json_of_value None = []"
| "json_of_value (Some v) = [(''project'', v)]"

text \<open>\<open>create_image\<close> (lines 292-417); absent dimensions and format take their defaults.\<close>

definition create_image :: "env \<Rightarrow> string \<Rightarrow> string option \<Rightarrow> nat option \<Rightarrow> nat option \<Rightarrow> image_format option \<Rightarrow> string option \<Rightarrow> tool_result result \<times> event list" where
  "create_image e description project width_opt height_opt format_opt outputPath =
     (let width = (case width_opt of None \<Rightarrow> 800 | Some w \<Rightarrow> w);
          height = (case height_opt of None \<Rightarrow> 600 | Some h \<Rightarrow> h);
          format = (case format_opt of None \<Rightarrow> Png | Some f \<Rightarrow> f)
      in case resolve_project e project of (resolvedProject, log0) \<Rightarrow>
        (let pathPart = buildImagePath (render e resolvedProject) description width height format;
             url = IMG_BASE @ ''/'' @ pathPart;
             pollUrl = API_BASE e @ ''/content/request-json/'' @ pathPart
         in case poll_loop e pollUrl 0 ''PENDING'' log0 of
              (Inl err, log) \<Rightarrow> (Inl err, log)
            | (Inr None, log) \<Rightarrow>
                (Inl (Error (''Image generation timeout after '' @ dec (maxAttempts * 3)
                             @ '' seconds. URL: '' @ url)), log)
            | (Inr (Some imageBuffer), log) \<Rightarrow>
                (case save_output e outputPath imageBuffer of
                   Inl err \<Rightarrow> (Inl err, log)
                 | Inr u \<Rightarrow>
                     (Inr \<lparr>content_text = JSON_stringify_2 e (JObj
                             ([(''url'', JStr url),
                               (''html'', JStr (img_html url (hyphens_to_spaces description) width height)),
                               (''saved'', JBool (given outputPath)),
                               (''outputPath'', json_of_path outputPath),
                               (''size'', JNum (int (length imageBuffer)))]
                              @ json_of_value resolvedProject)),
                           isError = False\<rparr>, log))))"


section \<open>The source of an edit\<close>

text \<open>
  A regular expression that starts with a greedy \<open>(.+)\<close> followed by a literal
  character tries the longest prefix first and then shorter ones. \<open>cuts sep pre s\<close>
  lists the ways to cut \<open>s\<close> at an occurrence of \<open>sep\<close>, shortest prefix first;
  the dot matches no line terminator.
\<close>

fun cuts :: "char \<Rightarrow> string \<Rightarrow> string \<Rightarrow> (string \<times> string) list" where
  "cuts sep pre [] = []"
| "cuts sep pre (c # cs) =
     (if c = sep then [(pre, cs)] else []) @ cuts sep (pre @ [c]) cs"

definition line_terminator :: "char \<Rightarrow> bool" where
  "line_terminator c = (c = CHR 0x0A \<or> c = CHR 0x0D)"

definition dot_plus :: "string \<Rightarrow> bool" where
  "dot_plus s = (s \<noteq> [] \<and> \<not> list_ex line_terminator s)"

text \<open>\<open>(\d+)x(\d+)\.(png|jpg)$\<close> on the rest of the name after the underscore.\<close>

definition match_dims :: "string \<Rightarrow> (string \<times> string \<times> string) option" where
  "match_dims r =
     (let w = takeWhile is_digit r; r1 = dropWhile is_digit r
      in if w = [] then None
         else (case r1 of
                 [] \<Rightarrow> None
               | c # r2 \<Rightarrow>
                   if c \<noteq> CHR ''x'' then None
                   else (let h = takeWhile is_digit r2; r3 = dropWhile is_digit r2
                         in if h = [] then None
                            else (case r3 of
                                    [] \<Rightarrow> None
                                  | d # fmt \<Rightarrow>
                                      if d = CHR ''.'' \<and> (fmt = ''png'' \<or> fmt = ''jpg'')
                                      then Some (w, h, fmt) else None))))"

text \<open>\<open>sourceFileName.match(/^(.+)_(\d+)x(\d+)\.(png|jpg)$/)\<close> (line 596).\<close>

definition sourceMatch :: "string \<Rightarrow> (string \<times> string \<times> string \<times> string) option" where
  "sourceMatch sourceFileName =
     (case List.map_filter
             (\<lambda>(desc, r). if dot_plus desc
                           then map_option (\<lambda>(w, h, fmt). (desc, w, h, fmt)) (match_dims r)
                           else None)
             (rev (cuts CHR ''_'' [] sourceFileName)) of
        [] \<Rightarrow> None
      | m # ms \<Rightarrow> Some m)"

text \<open>\<open>sourceFileName.match(/^(.+)\.(png|jpg|jpeg|webp|gif)$/i)\<close> (line 612).\<close>

definition formatMatch :: "string \<Rightarrow> (string \<times> string) option" where
  "formatMatch sourceFileName =
     (case List.map_filter
             (\<lambda>(desc, ext). if dot_plus desc
                                \<and> toLowerCase ext \<in> set [''png'', ''jpg'', ''jpeg'', ''webp'', ''gif'']
                             then Some (desc, ext) else None)
             (rev (cuts CHR ''.'' [] sourceFileName)) of
        [] \<Rightarrow> None
      | m # ms \<Rightarrow> Some m)"

text \<open>\<open>a || b\<close> on an optional string and on an optional number.\<close>

fun str_or :: "string option \<Rightarrow> string \<Rightarrow> string" where
  "str_or None d = d"
| "str_or (Some s) d = (if s = [] then d else s)"

fun num_or :: "nat option \<Rightarrow> nat \<Rightarrow> nat" where
  "num_or None d = d"
| "num_or (Some n) d = (if n = 0 then d else n)"

definition allowedExtensions :: "string list" where
  "allowedExtensions = [''png'', ''jpg'', ''jpeg'', ''webp'', ''gif'']"

fun join :: "string \<Rightarrow> string list \<Rightarrow> string" where
  "join sep [] = []"
| "join sep [x] = x"
| "join sep (x # y # ys) = x @ sep @ join sep (y # ys)"

text \<open>
  The upload of a local file when no URL is given (lines 479-576); the result is
  \<open>resolvedSourceUrl\<close>.
\<close>

definition upload_source :: "env \<Rightarrow> string option \<Rightarrow> string option \<Rightarrow> string option \<Rightarrow> string result \<times> event list" where
  "upload_source e sourcePath project uploadPrompt =
     (case sourcePath of
        None \<Rightarrow> (Inl (Error ''Either sourceUrl or sourcePath must be provided.''), [])
      | Some sp \<Rightarrow>
          if sp = [] then (Inl (Error ''Either sourceUrl or sourcePath must be provided.''), [])
          else if \<not> given project then
            (Inl (Error ''Project is required when uploading a local file.''), [])
          else
            (case fs_readFile e sp of
               Inl err \<Rightarrow> (Inl err, [])
             | Inr fileBuffer \<Rightarrow>
                 (let ext = remove_first_dot (toLowerCase (path_extname e sp))
                  in if ext \<notin> set allowedExtensions then
                       (Inl (Error (''Invalid file type '' @ dq @ ext @ dq @ ''. Allowed types: ''
                                    @ join '', '' allowedExtensions)), [])
                     else
                       (let finalExt = (if ext = ''jpeg'' then ''jpg'' else ext);
                            defaultPrompt = path_basename e sp (path_extname e sp);
                            prompt = sanitizedPrompt (str_or uploadPrompt defaultPrompt);
                            uploadUrl = API_BASE e @ ''/content/upload''
                        in if prompt = [] then
                             (Inl (Error ''Upload prompt is required and cannot be empty.''), [])
                           else
                             (case upload_fetch e uploadUrl
                                     \<lparr>form_file = fileBuffer,
                                      form_filename = path_basename e sp [],
                                      form_contentType = ''image/'' @ finalExt,
                                      form_project = str_or project [],
                                      form_prompt = prompt\<rparr> of
                                Inl err \<Rightarrow> (Inl err, [UploadPost uploadUrl])
                              | Inr uploadRes \<Rightarrow>
                                  (if \<not> ok uploadRes then
                                     (case res_text uploadRes of
                                        Inl err \<Rightarrow> Inl err
                                      | Inr body \<Rightarrow>
                                          Inl (Error (''Upload failed '' @ dec (res_status uploadRes)
                                                      @ '': '' @ body)))
                                   else
                                     (case res_json uploadRes of
                                        Inl err \<Rightarrow> Inl err
                                      | Inr uploadData \<Rightarrow>
                                          if \<not> truthy (get_prop_opt (Some uploadData) ''success'') then
                                            Inl (Error (''Upload failed: '' @
                                              (let m = get_prop_opt (Some uploadData) ''message''
                                               in if truthy m then render e m else ''Unknown error'')))
                                          else
                                            (let uploadedPrompt =
                                                   get_prop_opt (get_prop_opt (Some uploadData) ''content'') ''prompt''
                                             in if \<not> truthy uploadedPrompt then
                                                  Inl (Error ''Upload succeeded but no prompt returned in response'')
                                                else Inr (IMG_BASE @ ''/'' @ render e uploadedPrompt))),
                                   [UploadPost uploadUrl]))))))"

text \<open>\<open>resolvedSourceUrl\<close>: the URL given, or the one an upload yields (lines 475-576).\<close>

definition resolve_source :: "env \<Rightarrow> string option \<Rightarrow> string option \<Rightarrow> string option \<Rightarrow> string option \<Rightarrow> string result \<times> event list" where
  "resolve_source e sourceUrl sourcePath project uploadPrompt =
     (case sourceUrl of
        None \<Rightarrow> upload_source e sourcePath project uploadPrompt
      | Some u \<Rightarrow>
          if u = [] then upload_source e sourcePath project uploadPrompt else (Inr u, []))"

text \<open>
  The dimensions of an uploaded image (lines 621-638): read from the file when
  \<open>sourcePath\<close> is given, 1024 otherwise and whenever reading fails.
\<close>

definition file_dimensions :: "env \<Rightarrow> string option \<Rightarrow> nat \<times> nat" where
  "file_dimensions e sourcePath =
     (case sourcePath of
        None \<Rightarrow> (1024, 1024)
      | Some sp \<Rightarrow>
          if sp = [] then (1024, 1024)
          else (case fs_readFile e sp of
                  Inl err \<Rightarrow> (1024, 1024)
                | Inr fileBuffer \<Rightarrow>
                    (case sharp_metadata e fileBuffer of
                       Inl err \<Rightarrow> (1024, 1024)
                     | Inr (mw, mh) \<Rightarrow> (num_or mw 1024, num_or mh 1024))))"

text \<open>What the resolver finds in the source URL (lines 579-639).\<close>

record source_info =
  sourcePathFromUrl :: string
  sourceQuery :: string
  baseDescription :: string
  sourceWidth :: nat
  sourceHeight :: nat
  sourceFormat :: string

text \<open>The last segment of a path (lines 592 and 595).\<close>

definition file_name :: "string \<Rightarrow> string" where
  "file_name path = last (split CHR ''/'' path)"

text \<open>
  The reading of the file name (lines 596-639): the pattern with dimensions first, the
  bare name with a known extension otherwise.
\<close>

definition extractDescriptionAndDimensions :: "env \<Rightarrow> string option \<Rightarrow> string \<Rightarrow> (string \<times> nat \<times> nat \<times> string) result" where
  "extractDescriptionAndDimensions e sourcePath path =
     (let sourceFileName = file_name path
      in case sourceMatch sourceFileName of
           Some (desc, w, h, fmt) \<Rightarrow> Inr (desc, parseInt w, parseInt h, fmt)
         | None \<Rightarrow>
             (case formatMatch sourceFileName of
                None \<Rightarrow> Inl (Error (''Invalid source image path format: '' @ path))
              | Some (desc, ext) \<Rightarrow>
                  (case file_dimensions e sourcePath of
                     (w, h) \<Rightarrow>
                       Inr (desc, w, h,
                            if toLowerCase ext = ''jpeg'' then ''jpg'' else toLowerCase ext))))"

definition parse_source :: "env \<Rightarrow> string \<Rightarrow> string option \<Rightarrow> source_info result" where
  "parse_source e resolvedSourceUrl sourcePath =
     (case new_URL e resolvedSourceUrl of
        None \<Rightarrow> Inl (Error (''Invalid Inliner image URL: '' @ resolvedSourceUrl))
      | Some sourceUrlObj \<Rightarrow>
          if \<not> endsWith (hostname sourceUrlObj) ''img.inliner.ai'' then
            Inl (Error (''Invalid Inliner image URL: '' @ resolvedSourceUrl))
          else
            (let path = strip_leading_slash (pathname sourceUrlObj)
             in case extractDescriptionAndDimensions e sourcePath path of
                  Inl err \<Rightarrow> Inl err
                | Inr (desc, w, h, fmt) \<Rightarrow>
                    Inr \<lparr>sourcePathFromUrl = path, sourceQuery = search sourceUrlObj,
                         baseDescription = desc, sourceWidth = w, sourceHeight = h,
                         sourceFormat = fmt\<rparr>))"

text \<open>
  The edit segment (lines 640-655): the sanitized instruction, with the output dimensions
  appended when a width or a height is asked for.
\<close>

definition edit_segment :: "string \<Rightarrow> nat option \<Rightarrow> nat option \<Rightarrow> nat \<Rightarrow> nat \<Rightarrow> string" where
  "edit_segment editInstruction width height outputWidth outputHeight =
     (if num_or width 0 \<noteq> 0 \<or> num_or height 0 \<noteq> 0
      then sanitizedEdit editInstruction @ ''-'' @ dec outputWidth @ ''x'' @ dec outputHeight
      else sanitizedEdit editInstruction)"

text \<open>\<open>edit_image\<close> (lines 464-762).\<close>

definition edit_image :: "env \<Rightarrow> string option \<Rightarrow> string option \<Rightarrow> string option \<Rightarrow> string option \<Rightarrow> string \<Rightarrow> nat option \<Rightarrow> nat option \<Rightarrow> image_format option \<Rightarrow> string option \<Rightarrow> tool_result result \<times> event list" where
  "edit_image e sourceUrl sourcePath project uploadPrompt editInstruction width height format outputPath =
     (case resolve_source e sourceUrl sourcePath project uploadPrompt of
        (Inl err, log0) \<Rightarrow> (Inl err, log0)
      | (Inr resolvedSourceUrl, log0) \<Rightarrow>
          (case parse_source e resolvedSourceUrl sourcePath of
             Inl err \<Rightarrow> (Inl err, log0)
           | Inr src \<Rightarrow>
               (let outputFormat = (case format of None \<Rightarrow> sourceFormat src | Some f \<Rightarrow> format_str f);
                    outputWidth = num_or width (sourceWidth src);
                    outputHeight = num_or height (sourceHeight src);
                    editPath = sourcePathFromUrl src @ ''/''
                               @ edit_segment editInstruction width height outputWidth outputHeight
                               @ ''.'' @ outputFormat;
                    url = IMG_BASE @ ''/'' @ editPath @ sourceQuery src;
                    pollUrl = API_BASE e @ ''/content/request-json/'' @ editPath @ sourceQuery src
                in case poll_loop e pollUrl 0 ''PENDING'' log0 of
                     (Inl err, log) \<Rightarrow> (Inl err, log)
                   | (Inr None, log) \<Rightarrow>
                       (Inl (Error (''Image edit timeout after '' @ dec (maxAttempts * 3)
                                    @ '' seconds. URL: '' @ url)), log)
                   | (Inr (Some imageBuffer), log) \<Rightarrow>
                       (case save_output e outputPath imageBuffer of
                          Inl err \<Rightarrow> (Inl err, log)
                        | Inr u \<Rightarrow>
                            (Inr \<lparr>content_text = JSON_stringify_2 e (JObj
                                    [(''url'', JStr url),
                                     (''html'', JStr (img_html url (hyphens_to_spaces editInstruction)
                                                        outputWidth outputHeight)),
                                     (''saved'', JBool (given outputPath)),
                                     (''outputPath'', json_of_path outputPath),
                                     (''size'', JNum (int (length imageBuffer))),
                                     (''editInstruction'', JStr editInstruction),
                                     (''dimensions'', JStr (dec outputWidth @ ''x'' @ dec outputHeight))]),
                                  isError = False\<rparr>, log)))))"

section \<open>The read-only tools\<close>








section \<open>Notions used to state the properties\<close>

text \<open>Attempt \<open>attempt\<close> of a run does not end the loop with an image.\<close>

definition not_ready :: "env \<Rightarrow> string \<Rightarrow> nat \<Rightarrow> bool" where
  "not_ready e pollUrl attempt =
     (case fst (poll_try e pollUrl attempt ''PENDING'') of
        Inr (Some buf, st) \<Rightarrow> False
      | _ \<Rightarrow> True)"

text \<open>
  A response that carries no media payload: its body does not parse, or the parsed value
  has no truthy \<open>mediaAsset.data\<close>.
\<close>

definition no_payload :: "response \<Rightarrow> bool" where
  "no_payload res =
     (case res_json res of
        Inl err \<Rightarrow> True
      | Inr pollData \<Rightarrow>
          (case media_data pollData of Inl err \<Rightarrow> True | Inr d \<Rightarrow> \<not> truthy d))"

text \<open>The test that \<open>edit_image\<close> applies to the host of the source URL (lines 579-588).\<close>

definition host_accepted :: "env \<Rightarrow> string \<Rightarrow> bool" where
  "host_accepted e resolvedSourceUrl =
     (case new_URL e resolvedSourceUrl of
        None \<Rightarrow> False
      | Some sourceUrlObj \<Rightarrow> endsWith (hostname sourceUrlObj) ''img.inliner.ai'')"






definition image_result :: "env \<Rightarrow> string \<Rightarrow> string \<Rightarrow> nat \<Rightarrow> nat \<Rightarrow> string option \<Rightarrow> (string \<times> json) list \<Rightarrow> bytes \<Rightarrow> tool_result" where
  "image_result e url alt width height outputPath own imageBuffer =
     \<lparr>content_text = JSON_stringify_2 e (JObj
        ([(''url'', JStr url),
          (''html'', JStr (img_html url (hyphens_to_spaces alt) width height)),
          (''saved'', JBool (given outputPath)),
          (''outputPath'', json_of_path outputPath),
          (''size'', JNum (int (length imageBuffer)))] @ own)),
      isError = False\<rparr>"


definition editPath :: "source_info \<Rightarrow> string \<Rightarrow> nat option \<Rightarrow> nat option \<Rightarrow> image_format option \<Rightarrow> string" where
  "editPath src editInstruction width height format =
     sourcePathFromUrl src @ ''/''
     @ edit_segment editInstruction width height
         (num_or width (sourceWidth src)) (num_or height (sourceHeight src))
     @ ''.'' @ (case format of None \<Rightarrow> sourceFormat src | Some f \<Rightarrow> format_str f)"

definition is_request :: "event \<Rightarrow> bool" where
  "is_request ev = (case ev of StatusGet u \<Rightarrow> True | AssetGet u \<Rightarrow> True | _ \<Rightarrow> False)"

section \<open>Concrete environments\<close>

text \<open>A machine with no network and no files: every promise of the platform rejects.\<close>

definition offline_env :: env where
  "offline_env =
     \<lparr>INLINER_API_URL = None,
      base64_decode = (\<lambda>s. []),
      JSON_stringify = (\<lambda>v. []),
      JSON_stringify_2 = (\<lambda>v. []),
      js_String = (\<lambda>v. []),
      js_gt_zero = (\<lambda>v. False),
      new_URL = (\<lambda>s. None),
      path_extname = (\<lambda>p. []),
      path_basename = (\<lambda>p ext. p),
      path_dirname = (\<lambda>p. ''.''),
      fs_readFile = (\<lambda>p. Inl (Rejected ''ENOENT'')),
      fs_mkdir = (\<lambda>p. Inl (Rejected ''EACCES'')),
      fs_writeFile = (\<lambda>p b. Inl (Rejected ''EACCES'')),
      sharp_metadata = (\<lambda>b. Inl (Rejected ''unsupported image format'')),
      api_fetch = (\<lambda>u. Inl (Rejected ''fetch failed'')),
      poll_fetch = (\<lambda>n u. Inl (Rejected ''fetch failed'')),
      asset_fetch = (\<lambda>n u. Inl (Rejected ''fetch failed'')),
      upload_fetch = (\<lambda>u f. Inl (Rejected ''fetch failed''))\<rparr>"

definition json_response :: "nat \<Rightarrow> json \<Rightarrow> response" where
  "json_response st v =
     \<lparr>res_status = st, res_json = Inr v, res_text = Inr [], res_arrayBuffer = Inr []\<rparr>"

text \<open>The status endpoint answers 500 with a failed job, every time.\<close>

definition failed_job_env :: env where
  "failed_job_env =
     offline_env\<lparr>poll_fetch :=
       (\<lambda>n u. Inr (json_response 500 (JObj [(''status'', JStr ''FAILED'')])))\<rparr>"

text \<open>
  The status endpoint answers 202 with an empty object on attempts 1 to 29 and, on
  attempt 30, 200 with a \<open>data:\<close> URL whose payload \<open>AQID\<close> is the base64 form of
  the bytes 1, 2, 3.
\<close>

definition thirty_env :: env where
  "thirty_env =
     offline_env
       \<lparr>base64_decode := (\<lambda>s. if s = ''AQID'' then [1, 2, 3] else []),
        poll_fetch :=
          (\<lambda>n u. Inr (if n < 29 then json_response 202 (JObj [])
                        else json_response 200 (JObj [(''mediaAsset'',
                               JObj [(''data'', JStr ''data:image/png;base64,AQID'')])])))\<rparr>"

text \<open>
  The status endpoint answers 200 with a plain URL at once; the URL answers 404 with the
  two bytes of the text \<open>No\<close>.
\<close>

definition missing_asset_env :: env where
  "missing_asset_env =
     offline_env
       \<lparr>poll_fetch :=
          (\<lambda>n u. Inr (json_response 200 (JObj [(''mediaAsset'',
                          JObj [(''data'', JStr ''https://cdn.example.com/a.png'')])]))),
        asset_fetch :=
          (\<lambda>n u. Inr \<lparr>res_status = 404, res_json = Inl (Rejected ''Unexpected token''),
                        res_text = Inr ''No'', res_arrayBuffer = Inr [0x4E, 0x6F]\<rparr>)\<rparr>"

text \<open>
  A URL parser that knows two URLs, one on a neighbour of the image host and one on a
  foreign host, over the network of \<open>thirty_env\<close>.
\<close>

definition neighbour_url :: string where
  "neighbour_url = ''https://ximg.inliner.ai/p/cat_100x100.png''"

definition foreign_url :: string where
  "foreign_url = ''https://evil.example.com/p/cat_100x100.png''"

definition two_hosts_env :: env where
  "two_hosts_env =
     thirty_env
       \<lparr>new_URL :=
          (\<lambda>s. if s = neighbour_url then
                   Some \<lparr>hostname = ''ximg.inliner.ai'', pathname = ''/p/cat_100x100.png'',
                         search = []\<rparr>
                 else if s = foreign_url then
                   Some \<lparr>hostname = ''evil.example.com'', pathname = ''/p/cat_100x100.png'',
                         search = []\<rparr>
                 else None)\<rparr>"

section \<open>Properties of the sanitizers\<close>

lemma slug_char_hyphen: "slug_char CHR ''-''"
  by (simp add: slug_char_def)

lemma lower_char_slug: "slug_char c \<Longrightarrow> lower_char c = c"
  by (auto simp: slug_char_def lower_char_def Let_def)

lemma toLowerCase_slug: "list_all slug_char s \<Longrightarrow> toLowerCase s = s"
  by (induction s) (simp_all add: toLowerCase_def lower_char_slug)

lemma replace_invalid_chars: "list_all slug_char (replace_invalid s)"
  by (induction s) (simp_all add: replace_invalid_def slug_char_hyphen)

lemma replace_invalid_slug: "list_all slug_char s \<Longrightarrow> replace_invalid s = s"
  by (induction s) (simp_all add: replace_invalid_def)

lemma collapse_set: "set (collapse_hyphens s) \<subseteq> set s"
  by (induction s rule: collapse_hyphens.induct) auto

lemma collapse_chars: "list_all P s \<Longrightarrow> list_all P (collapse_hyphens s)"
  using collapse_set [of s] by (auto simp: list_all_iff)

lemma collapse_hd: "collapse_hyphens (c # cs) \<noteq> [] \<and> hd (collapse_hyphens (c # cs)) = c"
  by (induction "c # cs" arbitrary: c cs rule: collapse_hyphens.induct) auto

lemma collapse_no_double: "no_double_hyphen (collapse_hyphens s)"
proof (induction s rule: collapse_hyphens.induct)
  case (3 c d cs)
  obtain e es where e: "collapse_hyphens (d # cs) = e # es" "e = d"
    using collapse_hd [of d cs] by (cases "collapse_hyphens (d # cs)") auto
  with 3 show ?case by auto
qed simp_all

lemma collapse_fixed: "no_double_hyphen s \<Longrightarrow> collapse_hyphens s = s"
  by (induction s rule: collapse_hyphens.induct) auto

lemma no_double_iff:
  "no_double_hyphen s \<longleftrightarrow>
     (\<forall>i. Suc i < length s \<longrightarrow> s ! i \<noteq> CHR ''-'' \<or> s ! Suc i \<noteq> CHR ''-'')"
proof (induction s rule: no_double_hyphen.induct)
  case (3 c d cs)
  have "(\<forall>i. Suc i < length (c # d # cs) \<longrightarrow>
            (c # d # cs) ! i \<noteq> CHR ''-'' \<or> (c # d # cs) ! Suc i \<noteq> CHR ''-'')
        \<longleftrightarrow> (c \<noteq> CHR ''-'' \<or> d \<noteq> CHR ''-'') \<and>
            (\<forall>i. Suc i < length (d # cs) \<longrightarrow>
               (d # cs) ! i \<noteq> CHR ''-'' \<or> (d # cs) ! Suc i \<noteq> CHR ''-'')"
    (is "?L \<longleftrightarrow> ?H \<and> ?R")
  proof
    assume l: ?L
    have ?H using l [rule_format, of 0] by simp
    moreover have ?R
    proof (intro allI impI)
      fix i assume "Suc i < length (d # cs)"
      then show "(d # cs) ! i \<noteq> CHR ''-'' \<or> (d # cs) ! Suc i \<noteq> CHR ''-''"
        using l [rule_format, of "Suc i"] by simp
    qed
    ultimately show "?H \<and> ?R" ..
  next
    assume hr: "?H \<and> ?R"
    show ?L
    proof (intro allI impI)
      fix i assume i: "Suc i < length (c # d # cs)"
      show "(c # d # cs) ! i \<noteq> CHR ''-'' \<or> (c # d # cs) ! Suc i \<noteq> CHR ''-''"
      proof (cases i)
        case 0
        with hr show ?thesis by simp
      next
        case (Suc j)
        with i hr [THEN conjunct2, rule_format, of j] show ?thesis by simp
      qed
    qed
  qed
  with 3 show ?case by simp
qed simp_all

lemma no_double_tl: "no_double_hyphen (c # cs) \<Longrightarrow> no_double_hyphen cs"
  by (cases cs) auto

lemma no_double_take: "no_double_hyphen s \<Longrightarrow> no_double_hyphen (take n s)"
  by (simp add: no_double_iff)

lemma no_double_butlast: "no_double_hyphen s \<Longrightarrow> no_double_hyphen (butlast s)"
  using no_double_take [of s "length s - 1"] by (simp add: butlast_conv_take)

lemma strip_chars: "list_all P s \<Longrightarrow> list_all P (strip_hyphens s)"
  by (cases s) (auto simp: strip_hyphens_def strip_leading_def strip_trailing_def list_all_iff dest: in_set_butlastD)

lemma strip_leading_no_double: "no_double_hyphen s \<Longrightarrow> no_double_hyphen (strip_leading s)"
  by (cases s) (auto simp: strip_leading_def dest: no_double_tl)

lemma strip_trailing_no_double: "no_double_hyphen s \<Longrightarrow> no_double_hyphen (strip_trailing s)"
  by (simp add: strip_trailing_def no_double_butlast)

lemma strip_no_double: "no_double_hyphen s \<Longrightarrow> no_double_hyphen (strip_hyphens s)"
  by (simp add: strip_hyphens_def strip_leading_no_double strip_trailing_no_double)

lemma no_double_hd: "no_double_hyphen (CHR ''-'' # cs) \<Longrightarrow> cs = [] \<or> hd cs \<noteq> CHR ''-''"
  by (cases cs) auto

lemma no_double_last: "no_double_hyphen s \<Longrightarrow> s \<noteq> [] \<Longrightarrow> last s = CHR ''-'' \<Longrightarrow> butlast s = [] \<or> last (butlast s) \<noteq> CHR ''-''"
  by (induction s rule: no_double_hyphen.induct) (auto split: if_splits)

lemma strip_leading_hd: "no_double_hyphen s \<Longrightarrow> strip_leading s = [] \<or> hd (strip_leading s) \<noteq> CHR ''-''"
  by (cases s) (auto simp: strip_leading_def dest: no_double_hd)

lemma strip_trailing_edge:
  assumes "no_double_hyphen s" "s = [] \<or> hd s \<noteq> CHR ''-''"
  shows "no_edge_hyphen (strip_trailing s)"
proof (cases "s \<noteq> [] \<and> last s = CHR ''-''")
  case True
  then have "butlast s = [] \<or> last (butlast s) \<noteq> CHR ''-''"
    using assms(1) no_double_last by blast
  moreover have "butlast s \<noteq> [] \<Longrightarrow> hd (butlast s) = hd s"
    by (cases s) auto
  ultimately show ?thesis using True assms(2)
    by (auto simp: strip_trailing_def no_edge_hyphen_def)
next
  case False
  then show ?thesis using assms(2) by (auto simp: strip_trailing_def no_edge_hyphen_def)
qed

lemma strip_no_edge: "no_double_hyphen s \<Longrightarrow> no_edge_hyphen (strip_hyphens s)"
  unfolding strip_hyphens_def
  by (rule strip_trailing_edge [OF strip_leading_no_double strip_leading_hd])

lemma strip_fixed: "no_edge_hyphen s \<Longrightarrow> strip_hyphens s = s"
  by (cases s) (auto simp: strip_hyphens_def strip_leading_def strip_trailing_def no_edge_hyphen_def)

lemma sanitizedPrompt_is_slug: "is_slug (sanitizedPrompt p)"
  unfolding is_slug_def sanitizedPrompt_def
  by (intro conjI strip_chars collapse_chars replace_invalid_chars strip_no_double collapse_no_double strip_no_edge)

lemma sanitizedPrompt_fixed: "is_slug s \<Longrightarrow> sanitizedPrompt s = s"
  by (simp add: is_slug_def sanitizedPrompt_def toLowerCase_slug replace_invalid_slug collapse_fixed strip_fixed)

lemma sanitizedPrompt_idem: "sanitizedPrompt (sanitizedPrompt s) = sanitizedPrompt s"
  by (rule sanitizedPrompt_fixed [OF sanitizedPrompt_is_slug])

lemma collapse_filter: "filter (\<lambda>c. c \<noteq> CHR ''-'') (collapse_hyphens s) = filter (\<lambda>c. c \<noteq> CHR ''-'') s"
  by (induction s rule: collapse_hyphens.induct) auto

lemma strip_leading_filter:
  "filter (\<lambda>c. c \<noteq> CHR ''-'') (strip_leading t) = filter (\<lambda>c. c \<noteq> CHR ''-'') t"
  by (cases t) (auto simp: strip_leading_def)

lemma butlast_hyphen_filter:
  "t \<noteq> [] \<Longrightarrow> last t = CHR ''-'' \<Longrightarrow>
     filter (\<lambda>c. c \<noteq> CHR ''-'') (butlast t) = filter (\<lambda>c. c \<noteq> CHR ''-'') t"
  by (induction t) (auto split: if_splits)

lemma strip_trailing_filter:
  "filter (\<lambda>c. c \<noteq> CHR ''-'') (strip_trailing t) = filter (\<lambda>c. c \<noteq> CHR ''-'') t"
  by (simp add: strip_trailing_def butlast_hyphen_filter)

lemma strip_filter: "filter (\<lambda>c. c \<noteq> CHR ''-'') (strip_hyphens s) = filter (\<lambda>c. c \<noteq> CHR ''-'') s"
  by (simp add: strip_hyphens_def strip_leading_filter strip_trailing_filter)

lemma slug_char_a: "slug_char CHR ''a''" "CHR ''a'' \<noteq> CHR ''-''"
  by (simp_all add: slug_char_def)

lemma is_slug_replicate_a: "is_slug (replicate n CHR ''a'')"
proof -
  have "list_all slug_char (replicate n CHR ''a'')"
    by (simp add: list_all_iff slug_char_a)
  moreover have "no_double_hyphen (replicate n CHR ''a'')"
    by (simp add: no_double_iff)
  moreover have "no_edge_hyphen (replicate n CHR ''a'')"
    by (cases n) (simp_all add: no_edge_hyphen_def)
  ultimately show ?thesis by (simp add: is_slug_def)
qed

lemma rep_a: "sanitizedEdit (replicate n CHR ''a'') = replicate n CHR ''a''"
  using is_slug_replicate_a [of n]
  by (simp add: is_slug_def sanitizedEdit_def toLowerCase_slug replace_invalid_slug collapse_fixed strip_fixed)

subsection \<open>The sites compared\<close>

lemma sanitizedEdit_is_slug: "is_slug (sanitizedEdit editInstruction)"
  unfolding is_slug_def sanitizedEdit_def
  by (intro conjI strip_chars collapse_chars replace_invalid_chars strip_no_double
      collapse_no_double strip_no_edge)

lemma sanitizedEdit_url_chars:
  "list_all slug_char (sanitizedEdit_url edit) \<and> no_double_hyphen (sanitizedEdit_url edit)"
  unfolding sanitizedEdit_url_def
  by (intro conjI collapse_chars replace_invalid_chars collapse_no_double)

lemma sanitized_chars:
  "list_all slug_char (sanitized description) \<and> no_double_hyphen (sanitized description)"
proof -
  have "is_slug (sanitizedPrompt description)" by (rule sanitizedPrompt_is_slug)
  then show ?thesis
    by (simp add: sanitized_def slice100_def sanitizedPrompt_def is_slug_def no_double_take
        list_all_iff) (meson in_set_takeD)
qed

lemma sanitized_short_is_slug:
  assumes "length (sanitizedPrompt description) \<le> 100"
  shows "sanitized description = sanitizedPrompt description" "is_slug (sanitized description)"
proof -
  show eq: "sanitized description = sanitizedPrompt description"
    using assms by (simp add: sanitized_def slice100_def sanitizedPrompt_def)
  show "is_slug (sanitized description)"
    unfolding eq by (rule sanitizedPrompt_is_slug)
qed

lemma sanitized_short_idem:
  assumes "length (sanitizedPrompt description) \<le> 100"
  shows "sanitized (sanitized description) = sanitized description"
proof -
  have s: "sanitized description = sanitizedPrompt description"
    using assms by (rule sanitized_short_is_slug)
  have "sanitizedPrompt (sanitizedPrompt description) = sanitizedPrompt description"
    by (rule sanitizedPrompt_idem)
  then show ?thesis
    using assms by (simp add: s) (simp add: sanitized_def slice100_def sanitizedPrompt_def)
qed

lemma sanitizedEdit_url_idem: "sanitizedEdit_url (sanitizedEdit_url edit) = sanitizedEdit_url edit"
  using sanitizedEdit_url_chars [of edit]
  by (simp add: sanitizedEdit_url_def toLowerCase_slug replace_invalid_slug collapse_fixed)

text \<open>
  C2. Sanitizing a description twice is not the same as sanitizing it once: for 99 letters
  followed by \<open>-b\<close> the cut at 100 characters leaves a hyphen at the end, which the
  second pass strips.
\<close>

theorem sanitized_twice_differs:
  "sanitized (replicate 99 CHR ''a'' @ ''-b'') = replicate 99 CHR ''a'' @ ''-''
   \<and> sanitized (sanitized (replicate 99 CHR ''a'' @ ''-b'')) = replicate 99 CHR ''a''"
proof -
  have 1: "sanitized (replicate 99 CHR ''a'' @ ''-b'') = replicate 99 CHR ''a'' @ ''-''"
    by code_simp
  have 2: "sanitized (replicate 99 CHR ''a'' @ ''-'') = replicate 99 CHR ''a''"
    by code_simp
  show ?thesis by (simp only: 1 2)
qed

text \<open>
  C3. The edit instruction \<open>Make it blue!\<close> leaves \<open>generate_image_url\<close> as a
  segment that ends with a hyphen, while \<open>edit_image\<close> turns the same text into a
  slug.
\<close>

theorem sanitizedEdit_url_trailing_hyphen:
  "sanitizedEdit_url ''Make it blue!'' = ''make-it-blue-''
   \<and> \<not> is_slug (sanitizedEdit_url ''Make it blue!'')
   \<and> sanitizedEdit ''Make it blue!'' = ''make-it-blue''"
  by code_simp

text \<open>
  C8. A description slug has at most 100 characters and is the first 100 characters of
  the fully sanitized text. An edit slug is never cut: it keeps every letter and digit of
  the sanitized instruction, at both sites, and can have any length.
\<close>

theorem description_slug_cut_edit_slug_whole:
  "length (sanitized description) \<le> 100
   \<and> sanitized description
       = take 100 (strip_hyphens (collapse_hyphens (replace_invalid (toLowerCase description))))
   \<and> filter (\<lambda>c. c \<noteq> CHR ''-'') (sanitizedEdit editInstruction)
       = filter (\<lambda>c. c \<noteq> CHR ''-'') (replace_invalid (toLowerCase editInstruction))
   \<and> filter (\<lambda>c. c \<noteq> CHR ''-'') (sanitizedEdit_url editInstruction)
       = filter (\<lambda>c. c \<noteq> CHR ''-'') (replace_invalid (toLowerCase editInstruction))
   \<and> sanitizedEdit (replicate n CHR ''a'') = replicate n CHR ''a''"
  by (simp add: sanitized_def slice100_def sanitizedEdit_def sanitizedEdit_url_def
      strip_filter collapse_filter rep_a [unfolded sanitizedEdit_def])

section \<open>Properties of the polling loop\<close>

lemma take_payload_status:
  "take_payload e a st d = (Inr (b, st'), reqs) \<Longrightarrow> st' = st \<and> b \<noteq> None"
  by (auto simp: take_payload_def split: sum.splits if_splits option.splits json.splits list.splits)

lemma take_payload_events:
  "attempts (snd (take_payload e a st d)) = 0 \<and> waited_ms (snd (take_payload e a st d)) = 0"
  by (auto simp: take_payload_def attempts_def waited_ms_def is_status_get_def
      split: sum.splits if_splits option.splits json.splits list.splits)

lemma poll_body_status:
  "poll_body e a st res = (Inr (b, st'), reqs) \<Longrightarrow> st' = st \<or> st' = ''PENDING''"
  by (auto simp: poll_body_def split: sum.splits if_splits dest: take_payload_status)

lemma poll_body_events:
  "attempts (snd (poll_body e a st res)) = 0 \<and> waited_ms (snd (poll_body e a st res)) = 0"
  using take_payload_events
  by (auto simp: poll_body_def attempts_def waited_ms_def split: sum.splits if_splits)

lemma poll_try_status:
  "poll_try e u a st = (Inr (b, st'), reqs) \<Longrightarrow> st' = st \<or> st' = ''PENDING''"
  by (auto simp: poll_try_def split: sum.splits prod.splits dest: poll_body_status)

lemma poll_try_events:
  "attempts (snd (poll_try e u a st)) = 1 \<and> waited_ms (snd (poll_try e u a st)) = 0"
proof (cases "poll_fetch e a u")
  case (Inl err)
  then show ?thesis by (simp add: poll_try_def attempts_def waited_ms_def is_status_get_def)
next
  case (Inr res)
  obtain r reqs where b: "poll_body e a st res = (r, reqs)" by (cases "poll_body e a st res")
  with poll_body_events [of e a st res] Inr show ?thesis
    by (simp add: poll_try_def attempts_def waited_ms_def is_status_get_def)
qed

lemma attempts_append: "attempts (xs @ ys) = attempts xs + attempts ys"
  by (simp add: attempts_def)

lemma waited_append: "waited_ms (xs @ ys) = waited_ms xs + waited_ms ys"
  by (simp add: waited_ms_def)

lemma attempts_wait: "attempts [Wait n] = 0"
  by (simp add: attempts_def is_status_get_def)

lemma waited_wait: "waited_ms [Wait n] = n"
  by (simp add: waited_ms_def)

lemma poll_loop_step:
  assumes "attempt < maxAttempts"
  shows "poll_loop e u attempt ''PENDING'' log =
           (case poll_try e u attempt ''PENDING'' of
              (Inr (Some buf, st), reqs) \<Rightarrow> (Inr (Some buf), log @ reqs)
            | (r, reqs) \<Rightarrow> poll_loop e u (attempt + 1) ''PENDING'' (log @ reqs @ [Wait 3000]))"
proof -
  obtain r reqs where t: "poll_try e u attempt ''PENDING'' = (r, reqs)"
    by (cases "poll_try e u attempt ''PENDING''")
  show ?thesis
  proof (cases r)
    case (Inl err)
    with t assms show ?thesis by (subst poll_loop.simps) simp
  next
    case (Inr p)
    obtain b st where p: "p = (b, st)" by (cases p)
    with t Inr have "st = ''PENDING''" using poll_try_status by blast
    with t Inr p assms show ?thesis by (subst poll_loop.simps) (simp split: option.splits)
  qed
qed

lemma poll_loop_end: "\<not> attempt < maxAttempts \<Longrightarrow> poll_loop e u attempt st log = (Inr None, log)"
  by (subst poll_loop.simps) simp

lemma poll_loop_no_throw:
  "\<exists>b log'. poll_loop e u attempt ''PENDING'' log = (Inr b, log')"
proof (induction "maxAttempts - attempt" arbitrary: attempt log)
  case 0
  then show ?case by (simp add: poll_loop_end)
next
  case (Suc n)
  then have lt: "attempt < maxAttempts" and n: "n = maxAttempts - (attempt + 1)" by simp_all
  show ?case
    using Suc.hyps(1) [OF n]
    by (simp add: poll_loop_step [OF lt] split: prod.splits sum.splits option.splits)
qed

lemma poll_loop_bounds:
  "attempts (snd (poll_loop e u attempt ''PENDING'' log)) \<le> attempts log + (maxAttempts - attempt)
   \<and> waited_ms (snd (poll_loop e u attempt ''PENDING'' log)) \<le> waited_ms log + 3000 * (maxAttempts - attempt)"
proof (induction "maxAttempts - attempt" arbitrary: attempt log)
  case 0
  then show ?case by (simp add: poll_loop_end)
next
  case (Suc n)
  then have lt: "attempt < maxAttempts" and n: "n = maxAttempts - (attempt + 1)" by simp_all
  obtain r reqs where t: "poll_try e u attempt ''PENDING'' = (r, reqs)"
    by (cases "poll_try e u attempt ''PENDING''")
  have ev: "attempts reqs = 1" "waited_ms reqs = 0"
    using poll_try_events [of e u attempt "''PENDING''"] t by simp_all
  have ih: "attempts (snd (poll_loop e u (attempt + 1) ''PENDING'' (log @ reqs @ [Wait 3000])))
              \<le> attempts log + 1 + (maxAttempts - (attempt + 1))
            \<and> waited_ms (snd (poll_loop e u (attempt + 1) ''PENDING'' (log @ reqs @ [Wait 3000])))
              \<le> waited_ms log + 3000 + 3000 * (maxAttempts - (attempt + 1))"
    using Suc.hyps(1) [OF n, of "log @ reqs @ [Wait 3000]"]
    by (simp add: attempts_append waited_append attempts_wait waited_wait ev)
  have arith: "1 + (maxAttempts - (attempt + 1)) = maxAttempts - attempt"
    using lt by simp
  show ?case
    using ih lt ev t
    by (auto simp: poll_loop_step [OF lt] attempts_append waited_append
        split: sum.splits option.splits)
qed

lemma poll_loop_ready_at:
  assumes "k < maxAttempts" "attempt \<le> k"
    and "\<forall>i. attempt \<le> i \<and> i < k \<longrightarrow> not_ready e u i"
    and "fst (poll_try e u k ''PENDING'') = Inr (Some buf, st)"
  shows "fst (poll_loop e u attempt ''PENDING'' log) = Inr (Some buf)
         \<and> attempts (snd (poll_loop e u attempt ''PENDING'' log)) = attempts log + (k - attempt + 1)
         \<and> waited_ms (snd (poll_loop e u attempt ''PENDING'' log)) = waited_ms log + 3000 * (k - attempt)"
  using assms(2,3)
proof (induction "k - attempt" arbitrary: attempt log)
  case 0
  then have eq: "attempt = k" by simp
  obtain r reqs where t: "poll_try e u k ''PENDING'' = (r, reqs)"
    by (cases "poll_try e u k ''PENDING''")
  have ev: "attempts reqs = 1" "waited_ms reqs = 0"
    using poll_try_events [of e u k "''PENDING''"] t by simp_all
  show ?case
    using assms(1,4) t ev
    by (simp add: eq poll_loop_step attempts_append waited_append)
next
  case (Suc n)
  then have lt: "attempt < k" and n: "n = k - (attempt + 1)" by simp_all
  then have lt': "attempt < maxAttempts" using assms(1) by simp
  obtain r reqs where t: "poll_try e u attempt ''PENDING'' = (r, reqs)"
    by (cases "poll_try e u attempt ''PENDING''")
  have ev: "attempts reqs = 1" "waited_ms reqs = 0"
    using poll_try_events [of e u attempt "''PENDING''"] t by simp_all
  have nr: "not_ready e u attempt" using Suc.prems(2) lt by simp
  have step: "poll_loop e u attempt ''PENDING'' log
                = poll_loop e u (attempt + 1) ''PENDING'' (log @ reqs @ [Wait 3000])"
    using nr t
    by (auto simp: poll_loop_step [OF lt'] not_ready_def split: sum.splits option.splits)
  have ih: "fst (poll_loop e u (attempt + 1) ''PENDING'' (log @ reqs @ [Wait 3000])) = Inr (Some buf)
         \<and> attempts (snd (poll_loop e u (attempt + 1) ''PENDING'' (log @ reqs @ [Wait 3000])))
             = attempts (log @ reqs @ [Wait 3000]) + (k - (attempt + 1) + 1)
         \<and> waited_ms (snd (poll_loop e u (attempt + 1) ''PENDING'' (log @ reqs @ [Wait 3000])))
             = waited_ms (log @ reqs @ [Wait 3000]) + 3000 * (k - (attempt + 1))"
    using Suc.hyps(1) [OF n, of "log @ reqs @ [Wait 3000]"] Suc.prems(2) lt by simp
  have a1: "1 + (k - (attempt + 1) + 1) = k - attempt + 1" using lt by simp
  have a2: "3000 + 3000 * (k - (attempt + 1)) = 3000 * (k - attempt)" using lt by simp
  show ?case
    using ih a1 a2
    by (simp add: step attempts_append waited_append attempts_wait waited_wait ev)
qed

lemma poll_loop_timeout:
  assumes "\<forall>i. attempt \<le> i \<and> i < maxAttempts \<longrightarrow> not_ready e u i"
  shows "fst (poll_loop e u attempt ''PENDING'' log) = Inr None
         \<and> attempts (snd (poll_loop e u attempt ''PENDING'' log)) = attempts log + (maxAttempts - attempt)"
  using assms
proof (induction "maxAttempts - attempt" arbitrary: attempt log)
  case 0
  then show ?case by (simp add: poll_loop_end)
next
  case (Suc n)
  then have lt: "attempt < maxAttempts" and n: "n = maxAttempts - (attempt + 1)" by simp_all
  obtain r reqs where t: "poll_try e u attempt ''PENDING'' = (r, reqs)"
    by (cases "poll_try e u attempt ''PENDING''")
  have ev: "attempts reqs = 1"
    using poll_try_events [of e u attempt "''PENDING''"] t by simp
  have nr: "not_ready e u attempt" using Suc.prems lt by simp
  have step: "poll_loop e u attempt ''PENDING'' log
                = poll_loop e u (attempt + 1) ''PENDING'' (log @ reqs @ [Wait 3000])"
    using nr t
    by (auto simp: poll_loop_step [OF lt] not_ready_def split: sum.splits option.splits)
  have ih: "fst (poll_loop e u (attempt + 1) ''PENDING'' (log @ reqs @ [Wait 3000])) = Inr None
         \<and> attempts (snd (poll_loop e u (attempt + 1) ''PENDING'' (log @ reqs @ [Wait 3000])))
             = attempts (log @ reqs @ [Wait 3000]) + (maxAttempts - (attempt + 1))"
    using Suc.hyps(1) [OF n, of "log @ reqs @ [Wait 3000]"] Suc.prems by simp
  have a1: "1 + (maxAttempts - (attempt + 1)) = maxAttempts - attempt" using lt by simp
  show ?case
    using ih a1 by (simp add: step attempts_append attempts_wait ev)
qed

lemma resolve_project_events:
  "attempts (snd (resolve_project e project)) = 0 \<and> waited_ms (snd (resolve_project e project)) = 0"
  by (auto simp: resolve_project_def apiFetch_def attempts_def waited_ms_def is_status_get_def Let_def
      split: sum.splits prod.splits)

lemma upload_source_events:
  "attempts (snd (upload_source e sourcePath project uploadPrompt)) = 0
   \<and> waited_ms (snd (upload_source e sourcePath project uploadPrompt)) = 0
   \<and> \<not> list_ex is_request (snd (upload_source e sourcePath project uploadPrompt))"
  by (simp add: upload_source_def attempts_def waited_ms_def is_status_get_def is_request_def Let_def
      split: sum.splits option.splits)

lemma resolve_source_events:
  "attempts (snd (resolve_source e sourceUrl sourcePath project uploadPrompt)) = 0
   \<and> waited_ms (snd (resolve_source e sourceUrl sourcePath project uploadPrompt)) = 0
   \<and> \<not> list_ex is_request (snd (resolve_source e sourceUrl sourcePath project uploadPrompt))"
  using upload_source_events [of e sourcePath project uploadPrompt]
  by (simp add: resolve_source_def attempts_def waited_ms_def split: option.splits)

lemma max60: "maxAttempts = 60" by (simp add: maxAttempts_def)

lemma poll_loop_bounds0:
  assumes "attempts log = 0" "waited_ms log = 0"
  shows "attempts (snd (poll_loop e u 0 ''PENDING'' log)) \<le> 60
         \<and> waited_ms (snd (poll_loop e u 0 ''PENDING'' log)) \<le> 180000"
  using poll_loop_bounds [of e u 0 log] assms by (simp add: max60)

lemma snd_finish:
  "snd (case p of
          (Inl err, log) \<Rightarrow> (Inl err, log)
        | (Inr None, log) \<Rightarrow> (Inl t, log)
        | (Inr (Some b), log) \<Rightarrow>
            (case s b of Inl err \<Rightarrow> (Inl err, log) | Inr u \<Rightarrow> (Inr (k b), log))) = snd p"
  by (cases p) (auto split: sum.splits option.splits)

lemma generate_image_log:
  "snd (generate_image e project description width height format outputPath)
     = snd (poll_until_ready e (API_BASE e @ ''/content/request-json/''
                                @ buildImagePath project description width height format))"
  unfolding generate_image_def Let_def by (rule snd_finish)

lemma create_image_log:
  "\<exists>u. snd (create_image e description project width height format outputPath)
     = snd (poll_loop e u 0 ''PENDING'' (snd (resolve_project e project)))"
proof -
  obtain rp log0 where rp: "resolve_project e project = (rp, log0)"
    by (cases "resolve_project e project")
  show ?thesis
    unfolding create_image_def Let_def rp prod.case snd_finish snd_conv by (rule exI) (rule refl)
qed

lemma edit_image_log:
  "snd (edit_image e sourceUrl sourcePath project uploadPrompt editInstruction width height format outputPath)
     = snd (resolve_source e sourceUrl sourcePath project uploadPrompt)
   \<or> (\<exists>u. snd (edit_image e sourceUrl sourcePath project uploadPrompt editInstruction width height format outputPath)
     = snd (poll_loop e u 0 ''PENDING'' (snd (resolve_source e sourceUrl sourcePath project uploadPrompt))))"
proof -
  obtain r0 log0 where rs: "resolve_source e sourceUrl sourcePath project uploadPrompt = (r0, log0)"
    by (cases "resolve_source e sourceUrl sourcePath project uploadPrompt")
  show ?thesis
  proof (cases r0)
    case (Inl err)
    then show ?thesis by (simp add: edit_image_def rs)
  next
    case src: (Inr resolvedSourceUrl)
    show ?thesis
    proof (cases "parse_source e resolvedSourceUrl sourcePath")
      case (Inl err)
      then show ?thesis by (simp add: edit_image_def rs src)
    next
      case (Inr info)
      show ?thesis
        unfolding edit_image_def Let_def rs src Inr prod.case sum.case snd_finish snd_conv
        by (rule disjI2) (rule exI, rule refl)
    qed
  qed
qed

text \<open>
  C5. Whatever the network answers, a run of \<open>generate_image\<close>, \<open>create_image\<close> or
  \<open>edit_image\<close> makes at most 60 status requests and waits at most 180 seconds between
  them, and the loop ends: with an image, or with no image (the timeout that the tool then
  throws). The loop is a total function, by the measure \<open>maxAttempts - attempt\<close>.
\<close>

theorem polling_terminates_within_60_attempts:
  "attempts (snd (generate_image e project description width height format outputPath)) \<le> 60
   \<and> waited_ms (snd (generate_image e project description width height format outputPath)) \<le> 180000
   \<and> attempts (snd (create_image e description project_opt width_opt height_opt format_opt outputPath)) \<le> 60
   \<and> waited_ms (snd (create_image e description project_opt width_opt height_opt format_opt outputPath)) \<le> 180000
   \<and> attempts (snd (edit_image e sourceUrl sourcePath project_opt uploadPrompt editInstruction
                        width_opt height_opt format_opt outputPath)) \<le> 60
   \<and> waited_ms (snd (edit_image e sourceUrl sourcePath project_opt uploadPrompt editInstruction
                        width_opt height_opt format_opt outputPath)) \<le> 180000
   \<and> (\<exists>log. poll_until_ready e pollUrl = (Inr None, log)
          \<or> (\<exists>buf. poll_until_ready e pollUrl = (Inr (Some buf), log)))"
proof -
  have g: "attempts (snd (generate_image e project description width height format outputPath)) \<le> 60
      \<and> waited_ms (snd (generate_image e project description width height format outputPath)) \<le> 180000"
    using poll_loop_bounds0 [of "[]"]
    by (simp add: generate_image_log poll_until_ready_def attempts_def waited_ms_def)
  obtain u where u: "snd (create_image e description project_opt width_opt height_opt format_opt outputPath)
     = snd (poll_loop e u 0 ''PENDING'' (snd (resolve_project e project_opt)))"
    using create_image_log by blast
  have c: "attempts (snd (create_image e description project_opt width_opt height_opt format_opt outputPath)) \<le> 60
      \<and> waited_ms (snd (create_image e description project_opt width_opt height_opt format_opt outputPath)) \<le> 180000"
    unfolding u using poll_loop_bounds0 resolve_project_events by blast
  have ed: "attempts (snd (edit_image e sourceUrl sourcePath project_opt uploadPrompt editInstruction
                        width_opt height_opt format_opt outputPath)) \<le> 60
      \<and> waited_ms (snd (edit_image e sourceUrl sourcePath project_opt uploadPrompt editInstruction
                        width_opt height_opt format_opt outputPath)) \<le> 180000"
    using edit_image_log [of e sourceUrl sourcePath project_opt uploadPrompt editInstruction
                        width_opt height_opt format_opt outputPath]
      resolve_source_events [of e sourceUrl sourcePath project_opt uploadPrompt]
      poll_loop_bounds0 [of "snd (resolve_source e sourceUrl sourcePath project_opt uploadPrompt)" e]
    by auto
  obtain b log where p: "poll_until_ready e pollUrl = (Inr b, log)"
    using poll_loop_no_throw [of e pollUrl 0 "[]"] by (auto simp: poll_until_ready_def)
  have "\<exists>log. poll_until_ready e pollUrl = (Inr None, log)
          \<or> (\<exists>buf. poll_until_ready e pollUrl = (Inr (Some buf), log))"
    using p by (cases b) auto
  with g c ed show ?thesis by blast
qed

lemma fst_finish:
  "fst (case p of
          (Inl err, log) \<Rightarrow> (Inl err, log)
        | (Inr None, log) \<Rightarrow> (Inl t, log)
        | (Inr (Some b), log) \<Rightarrow>
            (case s b of Inl err \<Rightarrow> (Inl err, log) | Inr u \<Rightarrow> (Inr (k b), log)))
     = (case fst p of
          Inl err \<Rightarrow> Inl err
        | Inr None \<Rightarrow> Inl t
        | Inr (Some b) \<Rightarrow> (case s b of Inl err \<Rightarrow> Inl err | Inr u \<Rightarrow> Inr (k b)))"
  by (cases p) (auto split: sum.splits option.splits)

lemma generate_image_result:
  "fst (generate_image e project description width height format outputPath)
     = (case fst (poll_until_ready e (API_BASE e @ ''/content/request-json/''
                                      @ buildImagePath project description width height format)) of
          Inl err \<Rightarrow> Inl err
        | Inr None \<Rightarrow>
            Inl (Error (''Image generation timeout after '' @ dec (maxAttempts * 3)
                        @ '' seconds. URL: '' @ IMG_BASE @ ''/''
                        @ buildImagePath project description width height format))
        | Inr (Some imageBuffer) \<Rightarrow>
            (case save_output e outputPath imageBuffer of
               Inl err \<Rightarrow> Inl err
             | Inr u \<Rightarrow>
                 Inr \<lparr>content_text = JSON_stringify_2 e (JObj
                        [(''url'', JStr (IMG_BASE @ ''/'' @ buildImagePath project description width height format)),
                         (''html'', JStr (img_html (IMG_BASE @ ''/'' @ buildImagePath project description width height format)
                                            (hyphens_to_spaces description) width height)),
                         (''saved'', JBool (given outputPath)),
                         (''outputPath'', json_of_path outputPath),
                         (''size'', JNum (int (length imageBuffer)))]),
                      isError = False\<rparr>))"
  unfolding generate_image_def Let_def by (rule fst_finish)

lemma dec_180: "dec (maxAttempts * 3) = ''180''"
  by code_simp

lemma failed_job_not_ready: "not_ready failed_job_env u i"
  by (simp add: not_ready_def poll_try_def poll_body_def failed_job_env_def offline_env_def
      json_response_def ok_def)

text \<open>
  C1. When the status endpoint answers every request with 500 and a failed job, the run
  of \<open>generate_image\<close> does not stop at the first answer: it makes all 60 requests and
  ends with the timeout.
\<close>

theorem failed_job_is_polled_to_timeout:
  "fst (generate_image failed_job_env ''p'' ''happy-duck'' 800 600 Png None)
     = Inl (Error ''Image generation timeout after 180 seconds. URL: https://img.inliner.ai/p/happy-duck_800x600.png'')
   \<and> attempts (snd (generate_image failed_job_env ''p'' ''happy-duck'' 800 600 Png None)) = 60"
proof -
  have path: "buildImagePath ''p'' ''happy-duck'' 800 600 Png = ''p/happy-duck_800x600.png''"
    by code_simp
  have loop: "fst (poll_until_ready failed_job_env u) = Inr None
              \<and> attempts (snd (poll_until_ready failed_job_env u)) = 60" for u
    using poll_loop_timeout [of 0 failed_job_env u "[]"] failed_job_not_ready
    by (simp add: poll_until_ready_def max60 attempts_def)
  show ?thesis
    by (simp add: generate_image_result generate_image_log loop dec_180 path IMG_BASE_def)
qed

lemma split_no_sep: "sep \<notin> set s \<Longrightarrow> split sep s = [s]"
  by (induction s) auto

lemma split_at_sep: "sep \<notin> set a \<Longrightarrow> split sep (a @ sep # b) = a # split sep b"
  by (induction a) (auto simp: split_no_sep)

lemma split_data_url:
  assumes "CHR '','' \<notin> set mime" "CHR '','' \<notin> set payload"
  shows "split CHR '','' (''data:'' @ mime @ '';base64,'' @ payload)
           = [''data:'' @ mime @ '';base64'', payload]"
proof -
  have "CHR '','' \<notin> set (''data:'' @ mime @ '';base64'')" using assms(1) by simp
  from split_at_sep [OF this, of payload] assms(2) show ?thesis
    by (simp add: split_no_sep)
qed

lemma take_payload_data_url:
  assumes "CHR '','' \<notin> set mime" "CHR '','' \<notin> set payload"
  shows "take_payload e a st (Some (JStr (''data:'' @ mime @ '';base64,'' @ payload)))
           = (Inr (Some (base64_decode e payload), st), [])"
proof -
  have sw: "startsWith (''data:'' @ mime @ '';base64,'' @ payload) ''data:''"
    by (simp add: startsWith_def)
  show ?thesis
    unfolding take_payload_def
    by (simp only: option.case json.case sw if_True split_data_url [OF assms] list.case)
qed

lemma poll_try_pending_202:
  assumes "poll_fetch e i u = Inr res" "res_status res = 202" "no_payload res"
  shows "not_ready e u i"
  using assms
  by (auto simp: not_ready_def poll_try_def poll_body_def no_payload_def ok_def
      split: sum.splits)

text \<open>
  C6. The status endpoint answers 202 without a media payload on the attempts 1 to 29
  (numbered 0 to 28) and, on attempt 30, 200 with a body whose \<open>mediaAsset.data\<close> is a
  base64 \<open>data:\<close> URL. Then the loop ends with the decoded payload and 30 status
  requests have been made; \<open>generate_image\<close> hands exactly the decoded bytes to the
  saving step and, unless saving throws, returns the result whose \<open>size\<close> is their
  number; without an output path it always succeeds.
\<close>

theorem ready_on_attempt_30:
  assumes "\<forall>i<29. \<exists>res. poll_fetch e i (API_BASE e @ ''/content/request-json/''
                          @ buildImagePath project description width height format) = Inr res
                        \<and> res_status res = 202 \<and> no_payload res"
    and "poll_fetch e 29 (API_BASE e @ ''/content/request-json/''
            @ buildImagePath project description width height format) = Inr res30"
    and "res_status res30 = 200"
    and "res_json res30 = Inr pollData"
    and "media_data pollData = Inr (Some (JStr (''data:'' @ mime @ '';base64,'' @ payload)))"
    and "CHR '','' \<notin> set mime" and "CHR '','' \<notin> set payload"
  shows "fst (poll_until_ready e (API_BASE e @ ''/content/request-json/''
            @ buildImagePath project description width height format))
           = Inr (Some (base64_decode e payload))
         \<and> attempts (snd (generate_image e project description width height format outputPath)) = 30
         \<and> fst (generate_image e project description width height format outputPath)
           = (case save_output e outputPath (base64_decode e payload) of
                Inl err \<Rightarrow> Inl err
              | Inr u \<Rightarrow>
                  Inr (image_result e
                         (IMG_BASE @ ''/'' @ buildImagePath project description width height format)
                         description width height outputPath [] (base64_decode e payload)))
         \<and> fst (generate_image e project description width height format None)
           = Inr (image_result e
                    (IMG_BASE @ ''/'' @ buildImagePath project description width height format)
                    description width height None [] (base64_decode e payload))"
proof -
  let ?u = "API_BASE e @ ''/content/request-json/'' @ buildImagePath project description width height format"
  have pend: "\<forall>i. 0 \<le> i \<and> i < 29 \<longrightarrow> not_ready e ?u i"
    using assms(1) poll_try_pending_202 by blast
  have body: "poll_body e 29 ''PENDING'' res30
                = (Inr (Some (base64_decode e payload), ''PENDING''), [])"
    using assms(3,4,5) take_payload_data_url [OF assms(6,7)]
    by (simp add: poll_body_def ok_def)
  have tr: "fst (poll_try e ?u 29 ''PENDING'') = Inr (Some (base64_decode e payload), ''PENDING'')"
    using assms(2) body by (simp add: poll_try_def)
  have k: "(29::nat) < maxAttempts" by (simp add: max60)
  have loop: "fst (poll_loop e ?u 0 ''PENDING'' []) = Inr (Some (base64_decode e payload))
              \<and> attempts (snd (poll_loop e ?u 0 ''PENDING'' [])) = attempts [] + (29 - 0 + 1)"
    using poll_loop_ready_at [OF k _ pend tr, of "[]"] by simp
  then have 1: "fst (poll_until_ready e ?u) = Inr (Some (base64_decode e payload))"
    and 2: "attempts (snd (poll_until_ready e ?u)) = 30"
    by (simp_all add: poll_until_ready_def attempts_def)
  have 3: "fst (generate_image e project description width height format out)
           = (case save_output e out (base64_decode e payload) of
                Inl err \<Rightarrow> Inl err
              | Inr u \<Rightarrow>
                  Inr (image_result e
                         (IMG_BASE @ ''/'' @ buildImagePath project description width height format)
                         description width height out [] (base64_decode e payload)))" for out
    unfolding generate_image_result 1 by (simp add: image_result_def split: sum.splits)
  have 4: "fst (generate_image e project description width height format None)
           = Inr (image_result e
                    (IMG_BASE @ ''/'' @ buildImagePath project description width height format)
                    description width height None [] (base64_decode e payload))"
    unfolding 3 by (simp add: save_output_def)
  show ?thesis unfolding generate_image_log using 1 2 3 4 by blast
qed

theorem ready_on_attempt_30_witness:
  "fst (poll_until_ready thirty_env (API_BASE thirty_env @ ''/content/request-json/''
            @ buildImagePath ''p'' ''Happy Duck!!'' 800 600 Png)) = Inr (Some [1, 2, 3])
   \<and> attempts (snd (generate_image thirty_env ''p'' ''Happy Duck!!'' 800 600 Png None)) = 30
   \<and> fst (generate_image thirty_env ''p'' ''Happy Duck!!'' 800 600 Png None)
       = Inr (image_result thirty_env
                (IMG_BASE @ ''/'' @ buildImagePath ''p'' ''Happy Duck!!'' 800 600 Png)
                ''Happy Duck!!'' 800 600 None [] [1, 2, 3])
   \<and> fst (generate_image thirty_env ''p'' ''Happy Duck!!'' 800 600 Png (Some ''out/duck.png''))
       = Inl (Rejected ''EACCES'')"
proof -
  let ?u = "API_BASE thirty_env @ ''/content/request-json/'' @ buildImagePath ''p'' ''Happy Duck!!'' 800 600 Png"
  let ?ready = "json_response 200 (JObj [(''mediaAsset'', JObj [(''data'', JStr ''data:image/png;base64,AQID'')])])"
  have a1: "\<forall>i<29. \<exists>res. poll_fetch thirty_env i ?u = Inr res \<and> res_status res = 202 \<and> no_payload res"
    by (simp add: thirty_env_def offline_env_def json_response_def no_payload_def media_data_def)
  have a2: "poll_fetch thirty_env 29 ?u = Inr ?ready"
    by (simp add: thirty_env_def offline_env_def)
  have a3: "res_status ?ready = 200"
    and a4: "res_json ?ready = Inr (JObj [(''mediaAsset'', JObj [(''data'', JStr ''data:image/png;base64,AQID'')])])"
    by (simp_all add: json_response_def)
  have a5: "media_data (JObj [(''mediaAsset'', JObj [(''data'', JStr ''data:image/png;base64,AQID'')])])
              = Inr (Some (JStr (''data:'' @ ''image/png'' @ '';base64,'' @ ''AQID'')))"
    by (simp add: media_data_def)
  have a6: "CHR '','' \<notin> set ''image/png''" and a7: "CHR '','' \<notin> set ''AQID''" by simp_all
  have d: "base64_decode thirty_env ''AQID'' = [1, 2, 3]"
    by (simp add: thirty_env_def offline_env_def)
  have sv: "save_output thirty_env (Some ''out/duck.png'') [1, 2, 3] = Inl (Rejected ''EACCES'')"
    by (simp add: save_output_def thirty_env_def offline_env_def)
  note t = ready_on_attempt_30 [OF a1 a2 a3 a4 a5 a6 a7, unfolded d]
  have 1: "fst (poll_until_ready thirty_env ?u) = Inr (Some [1, 2, 3])"
    and 2: "attempts (snd (generate_image thirty_env ''p'' ''Happy Duck!!'' 800 600 Png None)) = 30"
    and 3: "fst (generate_image thirty_env ''p'' ''Happy Duck!!'' 800 600 Png None)
       = Inr (image_result thirty_env
                (IMG_BASE @ ''/'' @ buildImagePath ''p'' ''Happy Duck!!'' 800 600 Png)
                ''Happy Duck!!'' 800 600 None [] [1, 2, 3])"
    using t [of None] by blast+
  have 4: "fst (generate_image thirty_env ''p'' ''Happy Duck!!'' 800 600 Png (Some ''out/duck.png''))
       = Inl (Rejected ''EACCES'')"
    using t [of "Some ''out/duck.png''"] by (simp add: sv)
  show ?thesis using 1 2 3 4 by blast
qed

text \<open>
  C10. On the first attempt whose answer is successful and carries in \<open>mediaAsset.data\<close>
  a non-empty string that is no \<open>data:\<close> URL, the string is fetched and the body of
  that second answer becomes the image, whatever the status of the second answer: no
  hypothesis speaks of \<open>res_status imgRes\<close>.
\<close>

theorem plain_url_body_taken_unchecked:
  assumes "k < maxAttempts"
    and "\<forall>i<k. not_ready e pollUrl i"
    and "poll_fetch e k pollUrl = Inr pollRes"
    and "ok pollRes"
    and "res_json pollRes = Inr pollData"
    and "media_data pollData = Inr (Some (JStr dataUrl))"
    and "dataUrl \<noteq> []"
    and "\<not> startsWith dataUrl ''data:''"
    and "asset_fetch e k dataUrl = Inr imgRes"
    and "res_arrayBuffer imgRes = Inr body"
  shows "poll_try e pollUrl k ''PENDING''
           = (Inr (Some body, ''PENDING''), [StatusGet pollUrl, AssetGet dataUrl])
         \<and> fst (poll_loop e pollUrl 0 ''PENDING'' log) = Inr (Some body)"
proof -
  have tp: "take_payload e k ''PENDING'' (Some (JStr dataUrl))
              = (Inr (Some body, ''PENDING''), [AssetGet dataUrl])"
    using assms(8,9,10) by (simp add: take_payload_def)
  have pb: "poll_body e k ''PENDING'' pollRes = (Inr (Some body, ''PENDING''), [AssetGet dataUrl])"
    using assms(4,5,6,7) tp by (simp add: poll_body_def)
  have tr: "poll_try e pollUrl k ''PENDING''
               = (Inr (Some body, ''PENDING''), [StatusGet pollUrl, AssetGet dataUrl])"
    using assms(3) pb by (simp add: poll_try_def)
  have pend: "\<forall>i. 0 \<le> i \<and> i < k \<longrightarrow> not_ready e pollUrl i"
    using assms(2) by simp
  have "fst (poll_try e pollUrl k ''PENDING'') = Inr (Some body, ''PENDING'')"
    by (simp add: tr)
  from poll_loop_ready_at [OF assms(1) _ pend this, of log] tr show ?thesis by simp
qed

theorem plain_url_body_taken_unchecked_witness:
  "res_status \<lparr>res_status = 404, res_json = Inl (Rejected ''Unexpected token''),
               res_text = Inr ''No'', res_arrayBuffer = Inr [0x4E, 0x6F]\<rparr> = 404
   \<and> poll_try missing_asset_env ''u'' 0 ''PENDING''
       = (Inr (Some [0x4E, 0x6F], ''PENDING''),
          [StatusGet ''u'', AssetGet ''https://cdn.example.com/a.png''])
   \<and> fst (poll_loop missing_asset_env ''u'' 0 ''PENDING'' []) = Inr (Some [0x4E, 0x6F])"
proof -
  let ?d = "JObj [(''mediaAsset'', JObj [(''data'', JStr ''https://cdn.example.com/a.png'')])]"
  let ?img = "\<lparr>res_status = 404, res_json = Inl (Rejected ''Unexpected token''),
               res_text = Inr ''No'', res_arrayBuffer = Inr [0x4E, 0x6F]\<rparr>"
  have a1: "(0::nat) < maxAttempts" by (simp add: max60)
  have a2: "\<forall>i<0. not_ready missing_asset_env ''u'' i" by simp
  have a3: "poll_fetch missing_asset_env 0 ''u'' = Inr (json_response 200 ?d)"
    by (simp add: missing_asset_env_def offline_env_def)
  have a4: "ok (json_response 200 ?d)" by (simp add: ok_def json_response_def)
  have a5: "res_json (json_response 200 ?d) = Inr ?d" by (simp add: json_response_def)
  have a6: "media_data ?d = Inr (Some (JStr ''https://cdn.example.com/a.png''))"
    by (simp add: media_data_def)
  have a7: "''https://cdn.example.com/a.png'' \<noteq> []" by simp
  have a8: "\<not> startsWith ''https://cdn.example.com/a.png'' ''data:''"
    by (simp add: startsWith_def)
  have a9: "asset_fetch missing_asset_env 0 ''https://cdn.example.com/a.png'' = Inr ?img"
    by (simp add: missing_asset_env_def offline_env_def)
  have a10: "res_arrayBuffer ?img = Inr [0x4E, 0x6F]" by simp
  show ?thesis
    using plain_url_body_taken_unchecked [OF a1 a2 a3 a4 a5 a6 a7 a8 a9 a10, of "[]"] by simp
qed

section \<open>Error propagation\<close>






lemma generate_image_timeout:
  assumes "\<forall>i<maxAttempts. not_ready e (API_BASE e @ ''/content/request-json/''
                               @ buildImagePath project description width height format) i"
  shows "fst (generate_image e project description width height format outputPath)
           = Inl (Error (''Image generation timeout after 180 seconds. URL: '' @ IMG_BASE @ ''/''
                         @ buildImagePath project description width height format))"
proof -
  let ?u = "API_BASE e @ ''/content/request-json/'' @ buildImagePath project description width height format"
  have "\<forall>i. 0 \<le> i \<and> i < maxAttempts \<longrightarrow> not_ready e ?u i" using assms by simp
  from poll_loop_timeout [OF this, of "[]"]
  have p: "fst (poll_until_ready e ?u) = Inr None" by (simp add: poll_until_ready_def)
  show ?thesis unfolding generate_image_result p dec_180 by simp
qed
















section \<open>The source of an edit: host and file name\<close>

lemma parse_source_rejects:
  "\<not> host_accepted e src \<Longrightarrow>
     parse_source e src sourcePath = Inl (Error (''Invalid Inliner image URL: '' @ src))"
  by (simp add: host_accepted_def parse_source_def split: option.splits)

text \<open>
  C4, as the program has it. When the source URL, given or obtained from an upload, does
  not parse or has a host name that does not end with \<open>img.inliner.ai\<close>,
  \<open>edit_image\<close> throws before any status or asset request is made.
\<close>

theorem edit_image_rejects_other_suffix:
  assumes "resolve_source e sourceUrl sourcePath project uploadPrompt = (Inr src, log0)"
    and "\<not> host_accepted e src"
  shows "edit_image e sourceUrl sourcePath project uploadPrompt editInstruction width height
           format outputPath
           = (Inl (Error (''Invalid Inliner image URL: '' @ src)), log0)
         \<and> \<not> list_ex is_request log0"
proof -
  have "\<not> list_ex is_request log0"
    using resolve_source_events [of e sourceUrl sourcePath project uploadPrompt] assms(1) by simp
  then show ?thesis
    by (simp add: edit_image_def assms(1) parse_source_rejects [OF assms(2)])
qed

theorem edit_image_rejects_other_suffix_witness:
  "edit_image two_hosts_env (Some foreign_url) None None None ''make it blue'' None None None None
     = (Inl (Error ''Invalid Inliner image URL: https://evil.example.com/p/cat_100x100.png''), [])"
proof -
  have a1: "resolve_source two_hosts_env (Some foreign_url) None None None = (Inr foreign_url, [])"
    by (simp add: resolve_source_def foreign_url_def)
  have a2: "\<not> host_accepted two_hosts_env foreign_url"
    by (simp add: host_accepted_def two_hosts_env_def thirty_env_def offline_env_def
        foreign_url_def neighbour_url_def endsWith_def)
  show ?thesis
    using edit_image_rejects_other_suffix [OF a1 a2, of "''make it blue''" None None None None]
    by (simp add: foreign_url_def)
qed

lemma attempts_nil: "attempts [] = 0"
  by (simp add: attempts_def)

lemma two_hosts_loop:
  "fst (poll_loop two_hosts_env u 0 ''PENDING'' log) = Inr (Some [1, 2, 3])
   \<and> attempts (snd (poll_loop two_hosts_env u 0 ''PENDING'' log)) = attempts log + 30"
proof -
  have pend: "\<forall>i. 0 \<le> i \<and> i < 29 \<longrightarrow> not_ready two_hosts_env u i"
    by (simp add: not_ready_def poll_try_def poll_body_def two_hosts_env_def thirty_env_def
        offline_env_def json_response_def ok_def media_data_def)
  have tr: "fst (poll_try two_hosts_env u 29 ''PENDING'') = Inr (Some [1, 2, 3], ''PENDING'')"
    by (simp add: poll_try_def poll_body_def two_hosts_env_def thirty_env_def offline_env_def
        json_response_def ok_def media_data_def take_payload_def startsWith_def)
  have k: "(29::nat) < maxAttempts" by (simp add: max60)
  from poll_loop_ready_at [OF k _ pend tr, of log] show ?thesis by simp
qed

lemma neighbour_source:
  "parse_source two_hosts_env neighbour_url None
     = Inr \<lparr>sourcePathFromUrl = ''p/cat_100x100.png'', sourceQuery = [],
            baseDescription = ''cat'', sourceWidth = 100, sourceHeight = 100,
            sourceFormat = ''png''\<rparr>"
proof -
  have m: "extractDescriptionAndDimensions two_hosts_env None ''p/cat_100x100.png''
             = Inr (''cat'', 100, 100, ''png'')"
  proof -
    have "sourceMatch (file_name ''p/cat_100x100.png'') = Some (''cat'', ''100'', ''100'', ''png'')"
      by code_simp
    moreover have "parseInt ''100'' = 100" by code_simp
    ultimately show ?thesis by (simp add: extractDescriptionAndDimensions_def)
  qed
  have u: "new_URL two_hosts_env neighbour_url
             = Some \<lparr>hostname = ''ximg.inliner.ai'', pathname = ''/p/cat_100x100.png'', search = []\<rparr>"
    by (simp add: two_hosts_env_def thirty_env_def offline_env_def)
  have h: "endsWith ''ximg.inliner.ai'' ''img.inliner.ai''" by (simp add: endsWith_def)
  have p: "strip_leading_slash ''/p/cat_100x100.png'' = ''p/cat_100x100.png''"
    by (simp add: strip_leading_slash_def)
  show ?thesis by (simp add: parse_source_def u h p m)
qed

text \<open>
  C4, as the claim has it, fails: \<open>ximg.inliner.ai\<close> is not the image host, and yet a
  source URL on it is accepted, 30 status requests are made and the edit succeeds.
\<close>

theorem neighbour_host_is_accepted:
  "new_URL two_hosts_env neighbour_url
     = Some \<lparr>hostname = ''ximg.inliner.ai'', pathname = ''/p/cat_100x100.png'', search = []\<rparr>
   \<and> ''ximg.inliner.ai'' \<noteq> ''img.inliner.ai''
   \<and> \<not> isl (fst (edit_image two_hosts_env (Some neighbour_url) None None None ''make it blue''
                    None None None None))
   \<and> attempts (snd (edit_image two_hosts_env (Some neighbour_url) None None None ''make it blue''
                      None None None None)) = 30"
proof -
  have u: "new_URL two_hosts_env neighbour_url
             = Some \<lparr>hostname = ''ximg.inliner.ai'', pathname = ''/p/cat_100x100.png'', search = []\<rparr>"
    by (simp add: two_hosts_env_def thirty_env_def offline_env_def)
  have rs: "resolve_source two_hosts_env (Some neighbour_url) None None None = (Inr neighbour_url, [])"
    by (simp add: resolve_source_def neighbour_url_def)
  have sv: "save_output two_hosts_env None b = Inr ()" for b
    by (simp add: save_output_def)
  have r: "\<not> isl (fst (edit_image two_hosts_env (Some neighbour_url) None None None ''make it blue''
                    None None None None))"
    unfolding edit_image_def Let_def rs prod.case sum.case neighbour_source fst_finish
    by (simp add: two_hosts_loop sv)
  have l: "attempts (snd (edit_image two_hosts_env (Some neighbour_url) None None None ''make it blue''
                      None None None None)) = 30"
    unfolding edit_image_def Let_def rs prod.case sum.case neighbour_source snd_finish
    by (simp add: two_hosts_loop attempts_nil)
  show ?thesis using u r l by simp
qed

lemma digit_char_is_digit: "n < 10 \<Longrightarrow> is_digit (digit_char n) \<and> digit_val (digit_char n) = n"
  by (simp add: is_digit_def digit_char_def digit_val_def)

lemma dec_digits: "list_all is_digit (dec n) \<and> dec n \<noteq> []"
proof (induction n rule: dec.induct)
  case (1 n)
  show ?case
  proof (cases "n < 10")
    case True
    then show ?thesis by (subst dec.simps, subst dec.simps) (simp add: digit_char_is_digit)
  next
    case False
    with 1 show ?thesis
      by (subst dec.simps, subst (2) dec.simps) (simp add: digit_char_is_digit)
  qed
qed

lemma parseInt_snoc: "parseInt (s @ [c]) = parseInt s * 10 + digit_val c"
  by (simp add: parseInt_def)

lemma parseInt_dec: "parseInt (dec n) = n"
proof (induction n rule: dec.induct)
  case (1 n)
  show ?case
  proof (cases "n < 10")
    case True
    then show ?thesis by (subst dec.simps) (simp add: parseInt_def digit_char_is_digit)
  next
    case False
    with 1 have "parseInt (dec (n div 10)) = n div 10" by simp
    with False show ?thesis
      by (subst dec.simps) (simp add: parseInt_snoc digit_char_is_digit)
  qed
qed

lemma split_nonempty: "split sep s \<noteq> []"
  by (induction s) (auto split: list.splits)

lemma split_two: "sep \<in> set s \<Longrightarrow> \<exists>x y ys. split sep s = x # y # ys"
proof (induction s)
  case (Cons c s)
  show ?case
  proof (cases "c = sep")
    case True
    then show ?thesis using split_nonempty [of sep s] by (cases "split sep s") auto
  next
    case False
    with Cons obtain x y ys where "split sep s = x # y # ys" by auto
    with False show ?thesis by simp
  qed
qed simp

lemma last_split_prefix: "last (split sep (a @ sep # b)) = last (split sep b)"
proof (induction a)
  case Nil
  show ?case using split_nonempty [of sep b] by (cases "split sep b") auto
next
  case (Cons c a)
  show ?case
  proof (cases "c = sep")
    case True
    with Cons show ?thesis
      using split_nonempty [of sep "a @ sep # b"] by (cases "split sep (a @ sep # b)") auto
  next
    case False
    obtain x y ys where s: "split sep (a @ sep # b) = x # y # ys"
      using split_two [of sep "a @ sep # b"] by auto
    with False Cons show ?thesis by simp
  qed
qed

lemma file_name_last_segment: "CHR ''/'' \<notin> set name \<Longrightarrow> file_name (dir @ ''/'' @ name) = name"
  using last_split_prefix [of "CHR ''/''" dir name] by (simp add: file_name_def split_no_sep)

lemma cuts_none: "sep \<notin> set s \<Longrightarrow> cuts sep pre s = []"
  by (induction s arbitrary: pre) auto

lemma cuts_once:
  "sep \<notin> set a \<Longrightarrow> sep \<notin> set b \<Longrightarrow> cuts sep pre (a @ sep # b) = [(pre @ a, b)]"
  by (induction a arbitrary: pre) (auto simp: cuts_none)

lemma not_digit_chars: "\<not> is_digit CHR ''x''" "\<not> is_digit CHR ''.''"
  by (simp_all add: is_digit_def)

lemma match_dims_built:
  assumes "fmt = ''png'' \<or> fmt = ''jpg''"
  shows "match_dims (dec w @ ''x'' @ dec h @ ''.'' @ fmt) = Some (dec w, dec h, fmt)"
proof -
  have dw: "\<And>c. c \<in> set (dec w) \<Longrightarrow> is_digit c" and dh: "\<And>c. c \<in> set (dec h) \<Longrightarrow> is_digit c"
    using dec_digits by (auto simp: list_all_iff)
  have t1: "takeWhile is_digit (dec w @ CHR ''x'' # dec h @ CHR ''.'' # fmt) = dec w"
    using dw by (simp add: takeWhile_append2 not_digit_chars)
  have d1: "dropWhile is_digit (dec w @ CHR ''x'' # dec h @ CHR ''.'' # fmt) = CHR ''x'' # dec h @ CHR ''.'' # fmt"
    using dw by (simp add: dropWhile_append2 not_digit_chars)
  have t2: "takeWhile is_digit (dec h @ CHR ''.'' # fmt) = dec h"
    using dh by (simp add: takeWhile_append2 not_digit_chars)
  have d2: "dropWhile is_digit (dec h @ CHR ''.'' # fmt) = CHR ''.'' # fmt"
    using dh by (simp add: dropWhile_append2 not_digit_chars)
  have ne: "dec w \<noteq> []" "dec h \<noteq> []" using dec_digits by simp_all
  show ?thesis
    using assms ne by (simp add: match_dims_def Let_def t1 d1 t2 d2)
qed

lemma slug_char_not_special:
  assumes "slug_char c"
  shows "c \<noteq> CHR ''_''" "c \<noteq> CHR ''/''" "\<not> line_terminator c"
  using assms by (auto simp: slug_char_def line_terminator_def)

lemma digit_not_special:
  assumes "is_digit c"
  shows "c \<noteq> CHR ''_''" "c \<noteq> CHR ''/''"
  using assms by (auto simp: is_digit_def)

lemma format_str_cases: "format_str f = ''png'' \<or> format_str f = ''jpg''"
  by (cases f) simp_all

lemma tail_no_special:
  "CHR ''_'' \<notin> set (dec w @ ''x'' @ dec h @ ''.'' @ format_str f)"
  "CHR ''/'' \<notin> set (dec w @ ''x'' @ dec h @ ''.'' @ format_str f)"
  using dec_digits [of w] dec_digits [of h] format_str_cases [of f] digit_not_special
  by (auto simp: list_all_iff)

lemma sourceMatch_built:
  assumes "list_all slug_char slug" "slug \<noteq> []"
  shows "sourceMatch (slug @ ''_'' @ dec w @ ''x'' @ dec h @ ''.'' @ format_str f)
           = Some (slug, dec w, dec h, format_str f)"
proof -
  have u: "CHR ''_'' \<notin> set slug" using assms(1) slug_char_not_special(1) by (auto simp: list_all_iff)
  have c: "cuts CHR ''_'' [] (slug @ CHR ''_'' # (dec w @ ''x'' @ dec h @ ''.'' @ format_str f))
             = [([] @ slug, dec w @ ''x'' @ dec h @ ''.'' @ format_str f)]"
    by (rule cuts_once [OF u tail_no_special(1)])
  have dp: "dot_plus slug"
    using assms slug_char_not_special(3) by (auto simp: dot_plus_def list_all_iff list_ex_iff)
  have m: "match_dims (dec w @ ''x'' @ dec h @ ''.'' @ format_str f) = Some (dec w, dec h, format_str f)"
    by (rule match_dims_built [OF format_str_cases])
  have "sourceMatch (slug @ CHR ''_'' # (dec w @ ''x'' @ dec h @ ''.'' @ format_str f))
           = Some (slug, dec w, dec h, format_str f)"
    unfolding sourceMatch_def c using m by (simp add: List.map_filter_simps dp)
  then show ?thesis by simp
qed

text \<open>
  The round trip where it holds: when the description has a letter or a digit, so that
  its slug is not empty, the reading of the built path gives back the width, the height
  and the format, along with the slug.
\<close>

lemma round_trip_nonempty_slug:
  assumes "sanitized description \<noteq> []"
  shows "extractDescriptionAndDimensions e sourcePath
           (buildImagePath project description width height format)
           = Inr (sanitized description, width, height, format_str format)"
proof -
  let ?name = "sanitized description @ ''_'' @ dec width @ ''x'' @ dec height @ ''.'' @ format_str format"
  have sc: "list_all slug_char (sanitized description)" using sanitized_chars by blast
  have ns: "CHR ''/'' \<notin> set ?name"
    using sc slug_char_not_special(2) tail_no_special(2) [of width height format]
    by (auto simp: list_all_iff)
  have fn: "file_name (buildImagePath project description width height format) = ?name"
    unfolding buildImagePath_def using file_name_last_segment [OF ns, of project] by simp
  show ?thesis
    unfolding extractDescriptionAndDimensions_def Let_def fn sourceMatch_built [OF sc assms]
    by (simp add: parseInt_dec)
qed

text \<open>
  C7. For a description without letter or digit the slug is empty, the built path is
  \<open>p/_800x600.png\<close>, the pattern with dimensions does not match its file name (the
  description group needs a character) and the reading falls back to the bare name and
  the dimensions 1024 by 1024.
\<close>

theorem empty_slug_dimensions_lost:
  "buildImagePath ''p'' ''!!!'' 800 600 Png = ''p/_800x600.png''
   \<and> sourceMatch (file_name ''p/_800x600.png'') = None
   \<and> extractDescriptionAndDimensions offline_env None ''p/_800x600.png''
       = Inr (''_800x600'', 1024, 1024, ''png'')"
proof -
  have 1: "buildImagePath ''p'' ''!!!'' 800 600 Png = ''p/_800x600.png''" by code_simp
  have 2: "sourceMatch (file_name ''p/_800x600.png'') = None" by code_simp
  have 3: "formatMatch (file_name ''p/_800x600.png'') = Some (''_800x600'', ''png'')" by code_simp
  have 4: "toLowerCase ''png'' = ''png''" by code_simp
  show ?thesis
    by (simp add: 1 2 3 4 extractDescriptionAndDimensions_def file_dimensions_def)
qed

end
